theory Spec2Isabelle imports Complex_Main "HOL-Library.Log_Nat" "HOL-Library.Sublist" begin

section \<open>Dates\<close>

text \<open>
  A JavaScript \<^verbatim>\<open>Date\<close> is an instant: a number of milliseconds since the epoch
  (1970-01-01T00:00:00Z).

  The host supplies what \<^verbatim>\<open>patterns.js\<close> reads from its surroundings.  The first is the
  value of \<^verbatim>\<open>new Date()\<close>, taken once at the start of \<^verbatim>\<open>analysePatterns\<close>.  The second is
  the local time zone: \<open>localTZA t True\<close> is the offset of local time from UTC, in
  milliseconds, at the instant \<open>t\<close>, and \<open>localTZA t False\<close> is the offset the runtime takes
  when it reads the local time value \<open>t\<close> back as an instant.  Both may change with \<open>t\<close>, as
  they do where clocks are set forward and back in the year.  The third is the methods of
  \<^verbatim>\<open>String\<close> whose result depends on the character tables of the runtime: \<^verbatim>\<open>trim\<close>,
  \<^verbatim>\<open>toLowerCase\<close> and \<^verbatim>\<open>toUpperCase\<close>.
\<close>

record host =
  now :: int
  localTZA :: "int \<Rightarrow> bool \<Rightarrow> int"
  trim :: "string \<Rightarrow> string"
  toLowerCase :: "string \<Rightarrow> string"
  toUpperCase :: "string \<Rightarrow> string"

definition msPerDay :: int where
  "msPerDay = 24 * 60 * 60 * 1000"

text \<open>The local time value of an instant, and the instant of a local time value.\<close>

definition LocalTime :: "host \<Rightarrow> int \<Rightarrow> int" where
  "LocalTime h t = t + localTZA h t True"

definition UTC :: "host \<Rightarrow> int \<Rightarrow> int" where
  "UTC h t = t - localTZA h t False"

text \<open>
  \<^verbatim>\<open>const cutoff = new Date(now); cutoff.setDate(cutoff.getDate() - days);\<close>
  \<^verbatim>\<open>setDate\<close> works on the local calendar: it keeps the month, the year and the time within
  the day of the local time value and sets the day of the month, here to \<open>days\<close> less than
  it was (a day number below one runs back into the months before), and reads the result
  back as an instant.  The cutoff is the same local clock time \<open>days\<close> calendar days earlier.
\<close>

definition cutoffDate :: "host \<Rightarrow> int \<Rightarrow> int" where
  "cutoffDate h days =
     (let cutoff = now h;
          t = LocalTime h cutoff
      in UTC h (t - days * msPerDay))"

text \<open>
  The text of a \<^verbatim>\<open>datetime\<close>: an ISO 8601 timestamp with a four-digit year and a zone
  designator, such as \<^verbatim>\<open>2023-06-15T12:00:00.000Z\<close> (what \<^verbatim>\<open>toISOString()\<close> writes and the
  form of the application stores) or \<^verbatim>\<open>2023-06-15T14:00:00+02:00\<close>.  The model keeps the
  two things the code reads from the text: the instant it names, and the offset from UTC,
  in minutes, of the clock it is written in (0 for \<^verbatim>\<open>Z\<close>).
\<close>

record timestamp =
  instant :: int
  offsetMinutes :: int

text \<open>\<^verbatim>\<open>new Date(ep.datetime)\<close>\<close>

definition newDate :: "timestamp \<Rightarrow> int" where
  "newDate ts = instant ts"

text \<open>
  \<^verbatim>\<open>ep.datetime.slice(0, 10)\<close>: the first ten characters of the text, which are the
  calendar date on the clock the text is written in.  Two texts have the same ten
  characters exactly when these dates are the same day, so the model names the date by the
  number of that day since the epoch.
\<close>

definition slice_0_10 :: "timestamp \<Rightarrow> int" where
  "slice_0_10 ts = (instant ts + offsetMinutes ts * 60000) div msPerDay"

text \<open>
  \<^verbatim>\<open>new Date(ep.datetime).toISOString().slice(0, 10)\<close>: the first ten characters of the
  text that \<^verbatim>\<open>toISOString\<close> writes for an instant, which are its calendar date in UTC.
\<close>

definition isoDate :: "int \<Rightarrow> int" where
  "isoDate t = t div msPerDay"

text \<open>
  \<^verbatim>\<open>new Date("YYYY-MM-DD")\<close>: a date-only string is read as midnight UTC of that day.
\<close>

definition parseDate :: "int \<Rightarrow> int" where
  "parseDate d = d * msPerDay"

text \<open>The local clock and calendar of an instant, as the getters of \<^verbatim>\<open>Date\<close> give them.\<close>

definition localDate :: "host \<Rightarrow> int \<Rightarrow> int" where
  "localDate h t = LocalTime h t div msPerDay"

definition getHours :: "host \<Rightarrow> int \<Rightarrow> int" where
  "getHours h t = (LocalTime h t div 3600000) mod 24"

definition getMinutes :: "host \<Rightarrow> int \<Rightarrow> int" where
  "getMinutes h t = (LocalTime h t div 60000) mod 60"

text \<open>Day 0 of the epoch was a Thursday; \<^verbatim>\<open>getDay\<close> counts from Sunday = 0.\<close>

definition getDay :: "host \<Rightarrow> int \<Rightarrow> int" where
  "getDay h t = (localDate h t + 4) mod 7"

text \<open>
  The proleptic Gregorian calendar, by the usual era arithmetic (an era is 400 years, 146097
  days; day 0 of the reckoning is 0000-03-01): the year a day of the epoch falls in, and
  the day of the epoch of a calendar date.
\<close>

definition yearOfDay :: "int \<Rightarrow> int" where
  "yearOfDay z =
     (let z' = z + 719468;
          era = z' div 146097;
          doe = z' - era * 146097;
          yoe = (doe - doe div 1460 + doe div 36524 - doe div 146096) div 365;
          y = yoe + era * 400;
          doy = doe - (365 * yoe + yoe div 4 - yoe div 100);
          mp = (5 * doy + 2) div 153;
          m = (if mp < 10 then mp + 3 else mp - 9)
      in if m \<le> 2 then y + 1 else y)"

definition daysFromCivil :: "int \<Rightarrow> int \<Rightarrow> int \<Rightarrow> int" where
  "daysFromCivil y m d =
     (let y' = (if m \<le> 2 then y - 1 else y);
          era = y' div 400;
          yoe = y' - era * 400;
          doy = (153 * (if m > 2 then m - 3 else m + 9) + 2) div 5 + d - 1;
          doe = yoe * 365 + yoe div 4 - yoe div 100 + doy
      in era * 146097 + doe - 719468)"

definition getFullYear :: "host \<Rightarrow> int \<Rightarrow> int" where
  "getFullYear h t = yearOfDay (localDate h t)"

text \<open>
  \<^verbatim>\<open>new Date(year, 0, 1)\<close>: local midnight of the first of January, read back as an
  instant.  The constructor takes a year from 0 to 99 as a year of the twentieth century.
\<close>

definition startOfYear :: "host \<Rightarrow> int \<Rightarrow> int" where
  "startOfYear h year =
     (let y = (if 0 \<le> year \<and> year \<le> 99 then 1900 + year else year)
      in UTC h (daysFromCivil y 1 1 * msPerDay))"

section \<open>Collections\<close>

text \<open>
  \<^verbatim>\<open>new Set()\<close> with \<^verbatim>\<open>add\<close>: the members in the order of their first insertion, which is
  the order \<^verbatim>\<open>[...set]\<close> lists them in; \<^verbatim>\<open>size\<close> is the length.
\<close>

definition Set_add :: "'a list \<Rightarrow> 'a \<Rightarrow> 'a list" where
  "Set_add s x = (if x \<in> set s then s else s @ [x])"

definition newSet :: "'a list \<Rightarrow> 'a list" where
  "newSet xs = foldl Set_add [] xs"

section \<open>Strings\<close>

definition digitChar :: "nat \<Rightarrow> char" where
  "digitChar d = ''0123456789'' ! d"

text \<open>A count inside a template literal: its decimal digits.\<close>

fun showNat :: "nat \<Rightarrow> string" where
  "showNat n = (if n < 10 then [digitChar n] else showNat (n div 10) @ [digitChar (n mod 10)])"

declare showNat.simps [simp del]

text \<open>A number inside a template literal, and \<^verbatim>\<open>n.toString()\<close>.\<close>

definition showInt :: "int \<Rightarrow> string" where
  "showInt i = (if i < 0 then ''-'' @ showNat (nat (- i)) else showNat (nat i))"

text \<open>\<^verbatim>\<open>const pad = n => n.toString().padStart(2, '0');\<close>\<close>

definition pad :: "int \<Rightarrow> string" where
  "pad n = (let s = showInt n in replicate (2 - length s) (CHR ''0'') @ s)"

text \<open>
  \<^verbatim>\<open>formatTime\<close> of the basic version.  Its argument is a minute of the day, never
  negative, where \<^verbatim>\<open>Math.floor(minutes / 60)\<close> and \<^verbatim>\<open>minutes % 60\<close> are \<open>div\<close> and \<open>mod\<close>.
\<close>

definition formatTime :: "int \<Rightarrow> string" where
  "formatTime minutes =
     (let hh = minutes div 60;
          mm = minutes mod 60
      in pad hh @ '':'' @ pad mm)"

text \<open>
  Basic version: \<^verbatim>\<open>return str.charAt(0).toUpperCase() + str.slice(1);\<close>
  Extended version: \<^verbatim>\<open>return !s ? '' : s.charAt(0).toUpperCase() + s.slice(1);\<close>
\<close>

definition capitalize_basic :: "host \<Rightarrow> string \<Rightarrow> string" where
  "capitalize_basic h str = toUpperCase h (take 1 str) @ drop 1 str"

definition capitalize_ext :: "host \<Rightarrow> string \<Rightarrow> string" where
  "capitalize_ext h s = (if s = [] then [] else toUpperCase h (take 1 s) @ drop 1 s)"

text \<open>\<^verbatim>\<open>Array.prototype.join\<close> on strings.\<close>

fun join :: "string \<Rightarrow> string list \<Rightarrow> string" where
  "join sep [] = []"
| "join sep [x] = x"
| "join sep (x # y # ys) = x @ sep @ join sep (y # ys)"

section \<open>Numbers\<close>

text \<open>
  JavaScript numbers are IEEE 754 doubles.  A finite double is a rational number, and the
  model holds it as that number.  The result of an arithmetic operation is the exact result
  rounded to the nearest double, a tie going to the even significand of 53 bits.  Below the
  least normal exponent the steps between doubles stay those of that exponent.  No number
  that the rules compute from intensities, counts and minutes comes near the largest
  double, and the model has no infinity.
\<close>

definition pow2 :: "int \<Rightarrow> rat" where
  "pow2 e = (if e \<ge> 0 then 2 ^ nat e else 1 / 2 ^ nat (- e))"

text \<open>The binary exponent of a number other than zero: the floor of its logarithm to base 2.\<close>

definition binaryExponent :: "rat \<Rightarrow> int" where
  "binaryExponent x =
     (let (p, q) = quotient_of \<bar>x\<bar>;
          e = bitlen p - bitlen q
      in if pow2 e \<le> \<bar>x\<bar> then e else e - 1)"

definition roundTiesToEven :: "rat \<Rightarrow> int" where
  "roundTiesToEven y =
     (let f = \<lfloor>y\<rfloor>;
          r = y - of_int f
      in if r < 1 / 2 then f else if r > 1 / 2 then f + 1 else if even f then f else f + 1)"

definition double :: "rat \<Rightarrow> rat" where
  "double x =
     (if x = 0 then 0
      else let e = max (binaryExponent x) (- 1022) - 52
           in of_int (roundTiesToEven (x / pow2 e)) * pow2 e)"

text \<open>The operators \<^verbatim>\<open>+\<close>, \<^verbatim>\<open>*\<close> and \<^verbatim>\<open>/\<close> on doubles (the divisor is never zero here).\<close>

definition dadd :: "rat \<Rightarrow> rat \<Rightarrow> rat" where
  "dadd a b = double (a + b)"

definition dmul :: "rat \<Rightarrow> rat \<Rightarrow> rat" where
  "dmul a b = double (a * b)"

definition ddiv :: "rat \<Rightarrow> rat \<Rightarrow> rat" where
  "ddiv a b = double (a / b)"

text \<open>
  \<^verbatim>\<open>Math.ceil\<close> is the ceiling, \<^verbatim>\<open>Math.round\<close> rounds to the nearest integer, a half
  upwards; both are exact on the double they are given.
\<close>

definition Math_ceil :: "rat \<Rightarrow> int" where
  "Math_ceil x = \<lceil>x\<rceil>"

definition Math_round :: "rat \<Rightarrow> int" where
  "Math_round x = \<lfloor>x + 1 / 2\<rfloor>"

text \<open>
  The two thresholds, \<^verbatim>\<open>Math.ceil(recent.length * 0.25)\<close> and \<^verbatim>\<open>Math.ceil(total * 0.4)\<close>,
  are written with the exact products.  A quarter of a length is a double, so the first
  product is exact.  The double \<^verbatim>\<open>0.4\<close> lies above four tenths by one part in \<open>2 ^ 54\<close>, and
  the rounded product with a length is the exact product where that is a whole number and
  lies strictly between the same two whole numbers as the exact product where it is not:
  the ceiling is that of the exact product.
\<close>

text \<open>
  The messages use two characters outside ASCII, the non-breaking hyphen U+2011 and the
  en dash U+2013; they stand here as their UTF-8 bytes.
\<close>

definition nbhyphen :: string where
  "nbhyphen = [CHR 0xE2, CHR 0x80, CHR 0x91]"

definition endash :: string where
  "endash = [CHR 0xE2, CHR 0x80, CHR 0x93]"

section \<open>Data model\<close>

record medication =
  name :: string
  doseMg :: "nat option"

text \<open>
  An episode as \<^verbatim>\<open>storage.js\<close> keeps it.  A field that an episode object may lack
  (\<^verbatim>\<open>undefined\<close>) is an option.  An intensity is a whole number, from 0 to 10 in the
  form of the application.
\<close>

record episode =
  id_field :: string
  datetime :: timestamp
  intensity :: "int option"
  durationMinutes :: int
  triggers :: "string list option"
  medications :: "medication list option"
  notes_field :: string

record finding =
  title :: string
  message :: string

section \<open>The shared window helper\<close>

text \<open>
  \<^verbatim>\<open>function inLastDays(days) { ...; return episodes.filter(ep => new Date(ep.datetime) >= cutoff); }\<close>
  The same text in both versions of \<^verbatim>\<open>patterns.js\<close>.
\<close>

definition inLastDays :: "host \<Rightarrow> episode list \<Rightarrow> int \<Rightarrow> episode list" where
  "inLastDays h episodes days =
     (let cutoff = cutoffDate h days
      in filter (\<lambda>ep. newDate (datetime ep) \<ge> cutoff) episodes)"

text \<open>
  A number that may be \<^verbatim>\<open>NaN\<close>: \<open>None\<close> is \<^verbatim>\<open>NaN\<close>.  Arithmetic with \<^verbatim>\<open>NaN\<close> or
  \<^verbatim>\<open>undefined\<close> gives \<^verbatim>\<open>NaN\<close>, and every comparison with \<^verbatim>\<open>NaN\<close> is false.
\<close>

type_synonym number = "rat option"

definition num_add :: "number \<Rightarrow> number \<Rightarrow> number" where
  "num_add a b = (case (a, b) of (Some x, Some y) \<Rightarrow> Some (dadd x y) | _ \<Rightarrow> None)"

definition num_mul :: "number \<Rightarrow> rat \<Rightarrow> number" where
  "num_mul a y = (case a of Some x \<Rightarrow> Some (dmul x y) | None \<Rightarrow> None)"

definition num_div :: "number \<Rightarrow> nat \<Rightarrow> number" where
  "num_div a n = (case a of Some x \<Rightarrow> Some (ddiv x (of_nat n)) | None \<Rightarrow> None)"

definition num_ge :: "number \<Rightarrow> number \<Rightarrow> bool" where
  "num_ge a b = (case (a, b) of (Some x, Some y) \<Rightarrow> x \<ge> y | _ \<Rightarrow> False)"

text \<open>
  \<^verbatim>\<open>x.toFixed(1)\<close>: the sign, then the integer \<open>n\<close> for which \<open>n / 10\<close> is nearest to the
  magnitude of the double \<open>x\<close> (of two such the larger), written with the point before its
  last digit.
\<close>

definition toFixed1 :: "rat \<Rightarrow> string" where
  "toFixed1 x =
     (let n = \<lfloor>\<bar>x\<bar> * 10 + 1 / 2\<rfloor>
      in (if x < 0 then ''-'' else []) @ showInt (n div 10) @ ''.'' @ showInt (n mod 10))"

definition num_toFixed1 :: "number \<Rightarrow> string" where
  "num_toFixed1 a = (case a of Some x \<Rightarrow> toFixed1 x | None \<Rightarrow> ''NaN'')"

section \<open>Frequent triggers\<close>

text \<open>
  The object \<^verbatim>\<open>triggerCounts\<close> starts as \<^verbatim>\<open>{}\<close> and is used as a dictionary.  Its own
  properties are a list of keys with their values, in the order the keys were first
  written.  A value is a count or, \<open>None\<close>, a string that is not the text of a number.

  An object made by \<^verbatim>\<open>{}\<close> inherits the properties of \<^verbatim>\<open>Object.prototype\<close>.  Read under
  one of these names before the key is the object's own, \<^verbatim>\<open>triggerCounts[key]\<close> is a
  function (for \<^verbatim>\<open>__proto__\<close> the prototype object), which \<^verbatim>\<open>||\<close> keeps and to which
  \<^verbatim>\<open>+ 1\<close> appends the character 1: the value written is a string.  The assignment makes
  the key the object's own, except for \<^verbatim>\<open>__proto__\<close>, where it is handed to the inherited
  setter, which ignores a string.
\<close>

definition inheritedNames :: "string list" where
  "inheritedNames = [''constructor'', ''__defineGetter__'', ''__defineSetter__'', ''hasOwnProperty'',
     ''__lookupGetter__'', ''__lookupSetter__'', ''isPrototypeOf'', ''propertyIsEnumerable'',
     ''toString'', ''valueOf'', ''__proto__'', ''toLocaleString'']"

text \<open>\<^verbatim>\<open>triggerCounts[key] = (triggerCounts[key] || 0) + 1;\<close>\<close>

fun increment :: "(string \<times> nat option) list \<Rightarrow> string \<Rightarrow> (string \<times> nat option) list" where
  "increment [] key =
     (if key = ''__proto__'' then []
      else if key \<in> set inheritedNames then [(key, None)]
      else [(key, Some (0 + 1))])"
| "increment ((k, c) # rest) key =
     (if k = key then (k, (case c of None \<Rightarrow> None | Some n \<Rightarrow> Some (n + 1))) # rest
      else (k, c) # increment rest key)"

text \<open>
  \<^verbatim>\<open>Object.entries\<close> lists the own properties: first the keys that are array indices (the
  decimal text of a whole number below \<open>2 ^ 32 - 1\<close>, without leading zeros), in ascending
  order, then the other keys in the order they were first written.
\<close>

definition digitValue :: "char \<Rightarrow> nat" where
  "digitValue c = of_char c - 48"

definition isDigit :: "char \<Rightarrow> bool" where
  "isDigit c = (48 \<le> (of_char c :: nat) \<and> (of_char c :: nat) \<le> 57)"

definition arrayIndex :: "string \<Rightarrow> nat option" where
  "arrayIndex key =
     (if key \<noteq> [] \<and> list_all isDigit key \<and> (length key = 1 \<or> hd key \<noteq> CHR ''0'') \<and> length key \<le> 10
      then let n = foldl (\<lambda>n c. 10 * n + digitValue c) 0 key
           in if n < 2 ^ 32 - 1 then Some n else None
      else None)"

definition Object_entries :: "(string \<times> 'v) list \<Rightarrow> (string \<times> 'v) list" where
  "Object_entries obj =
     sort_key (\<lambda>(k, v). the (arrayIndex k)) (filter (\<lambda>(k, v). arrayIndex k \<noteq> None) obj)
       @ filter (\<lambda>(k, v). arrayIndex k = None) obj"

text \<open>
  \<^verbatim>\<open>count >= threshold\<close> for a value of the dictionary: a string that is not the text of a
  number compares as \<^verbatim>\<open>NaN\<close>, and the comparison is false.
\<close>

definition count_ge :: "nat option \<Rightarrow> int \<Rightarrow> bool" where
  "count_ge count threshold = (case count of None \<Rightarrow> False | Some n \<Rightarrow> int n \<ge> threshold)"

text \<open>\<^verbatim>\<open>ep.triggers || []\<close>\<close>

definition triggersOrEmpty :: "episode \<Rightarrow> string list" where
  "triggersOrEmpty ep = (case triggers ep of None \<Rightarrow> [] | Some ts \<Rightarrow> ts)"

definition topTriggersRule_basic_on :: "host \<Rightarrow> episode list \<Rightarrow> finding list \<Rightarrow> finding list" where
  "topTriggersRule_basic_on h recent suggestions =
     (if length recent = 0 then suggestions
         else
           let triggerCounts =
                 foldl (\<lambda>counts ep.
                     foldl (\<lambda>counts t. let key = toLowerCase h (trim h t) in increment counts key)
                       counts (triggersOrEmpty ep))
                   [] recent;
               threshold = Math_ceil (of_nat (length recent) * 0.25);
               commonTriggers = map fst (filter (\<lambda>(name, count). count_ge count threshold)
                                  (Object_entries triggerCounts))
           in if length commonTriggers > 0 then
                let list = join '', '' (map (capitalize_basic h) commonTriggers)
                in suggestions @ [\<lparr>title = ''Frequent triggers'',
                     message = ''You often report triggers like '' @ list
                       @ ''. Consider what adjustments might help you avoid or mitigate these.''\<rparr>]
              else suggestions)"

definition topTriggersRule_basic :: "host \<Rightarrow> episode list \<Rightarrow> finding list \<Rightarrow> finding list" where
  "topTriggersRule_basic h episodes suggestions =
     (let recent = inLastDays h episodes 30
      in topTriggersRule_basic_on h recent suggestions)"

definition topTriggersRule_ext_on :: "host \<Rightarrow> episode list \<Rightarrow> finding list \<Rightarrow> finding list" where
  "topTriggersRule_ext_on h recent suggestions =
     (if length recent = 0 then suggestions
         else
           let triggerCounts =
                 foldl (\<lambda>counts ep. foldl (\<lambda>counts t. increment counts t) counts (triggersOrEmpty ep))
                   [] recent;
               threshold = Math_ceil (of_nat (length recent) * 0.25);
               common = map fst (filter (\<lambda>(t, count). count_ge count threshold) (Object_entries triggerCounts))
           in if length common > 0 then
                let list = join '', '' (map (capitalize_ext h) common)
                in suggestions @ [\<lparr>title = ''Frequent triggers'',
                     message = ''You often report triggers like '' @ list
                       @ ''. Gentle adjustments might help you avoid or mitigate these.''\<rparr>]
              else suggestions)"

definition topTriggersRule_ext :: "host \<Rightarrow> episode list \<Rightarrow> finding list \<Rightarrow> finding list" where
  "topTriggersRule_ext h episodes suggestions =
     (let recent = inLastDays h episodes 30
      in topTriggersRule_ext_on h recent suggestions)"

section \<open>Time of day\<close>

text \<open>\<^verbatim>\<open>const d = new Date(ep.datetime); return d.getHours() * 60 + d.getMinutes();\<close>\<close>

definition minuteOfDay :: "host \<Rightarrow> episode \<Rightarrow> int" where
  "minuteOfDay h ep = (let d = newDate (datetime ep) in getHours h d * 60 + getMinutes h d)"

text \<open>
  The inner loop \<^verbatim>\<open>while (minutes[i] - minutes[windowStartIdx] > 240) windowStartIdx++;\<close>
  A read past the end of the array gives \<^verbatim>\<open>undefined\<close>, the difference is then
  \<^verbatim>\<open>NaN\<close> and the comparison false, which ends the loop: that is the range test here.
\<close>

function shrinkWindow :: "int list \<Rightarrow> nat \<Rightarrow> nat \<Rightarrow> nat" where
  "shrinkWindow minutes i windowStartIdx =
     (if windowStartIdx < length minutes \<and> i < length minutes
         \<and> minutes ! i - minutes ! windowStartIdx > 240
      then shrinkWindow minutes i (windowStartIdx + 1)
      else windowStartIdx)"
  by pat_completeness auto
termination
  by (relation "measure (\<lambda>(minutes, i, windowStartIdx). length minutes - windowStartIdx)") auto

declare shrinkWindow.simps [simp del]

text \<open>
  The outer loop \<^verbatim>\<open>for (let i = 0; i < minutes.length; i++)\<close>, with the three variables
  it updates; it returns \<^verbatim>\<open>maxCount\<close> and \<^verbatim>\<open>windowStartTime\<close>.
\<close>

function sweep :: "int list \<Rightarrow> nat \<Rightarrow> nat \<Rightarrow> int \<Rightarrow> int \<Rightarrow> int \<times> int" where
  "sweep minutes i windowStartIdx maxCount windowStartTime =
     (if i < length minutes then
        let w = shrinkWindow minutes i windowStartIdx;
            count = int i - int w + 1
        in if count > maxCount then sweep minutes (i + 1) w count (minutes ! w)
           else sweep minutes (i + 1) w maxCount windowStartTime
      else (maxCount, windowStartTime))"
  by pat_completeness auto
termination
  by (relation "measure (\<lambda>(minutes, i, windowStartIdx, maxCount, windowStartTime). length minutes - i)") auto

declare sweep.simps [simp del]

text \<open>
  What the sweep is to compute, said without pointers.  For a right end \<open>i\<close>, the window
  holds the values at positions up to \<open>i\<close> that lie at most 240 minutes below the value at
  \<open>i\<close>; the best window is the largest of these, and among equals the one with the least
  right end.
\<close>

definition spec_windowCount :: "int list \<Rightarrow> nat \<Rightarrow> int" where
  "spec_windowCount minutes i =
     int (length (filter (\<lambda>m. minutes ! i - m \<le> 240) (take (Suc i) minutes)))"

definition spec_maxWindowCount :: "int list \<Rightarrow> int" where
  "spec_maxWindowCount minutes = Max (spec_windowCount minutes ` {..<length minutes})"

text \<open>The position the left pointer rests at for a right end \<open>i\<close> (used in the proofs).\<close>

definition leftIdx :: "int list \<Rightarrow> nat \<Rightarrow> nat" where
  "leftIdx minutes i = length (takeWhile (\<lambda>m. minutes ! i - m > 240) minutes)"

text \<open>The invariant of the outer loop before round \<open>i\<close> (used in the proofs).\<close>

definition sweepInv :: "int list \<Rightarrow> nat \<Rightarrow> int \<Rightarrow> int \<Rightarrow> bool" where
  "sweepInv ms i mc wst \<longleftrightarrow>
     (\<forall>k < i. spec_windowCount ms k \<le> mc) \<and>
     (mc = 0 \<or> (\<exists>k < i. spec_windowCount ms k = mc \<and> (\<forall>k' < k. spec_windowCount ms k' < mc)
                   \<and> wst = ms ! leftIdx ms k))"

definition timeOfDayRule_basic_on :: "int list \<Rightarrow> finding list \<Rightarrow> finding list" where
  "timeOfDayRule_basic_on minutes suggestions =
     (let total = length minutes;
               threshold = Math_ceil (of_nat total * 0.4);
               (maxCount, windowStartTime) = sweep minutes 0 0 0 0
           in if maxCount \<ge> threshold then
                let start = windowStartTime;
                    end = (start + 240) mod (24 * 60);
                    startStr = formatTime start;
                    endStr = formatTime end
                in suggestions @ [\<lparr>title = ''Time'' @ nbhyphen @ ''of'' @ nbhyphen @ ''day pattern'',
                     message = ''Around '' @ showInt (Math_round (dmul (ddiv (of_int maxCount) (of_nat total)) 100))
                       @ ''% of your episodes happen between '' @ startStr @ '' and '' @ endStr
                       @ ''. You might try adjusting your routine or preparing for triggers during this period.''\<rparr>]
              else suggestions)"

definition timeOfDayRule_basic :: "host \<Rightarrow> episode list \<Rightarrow> finding list \<Rightarrow> finding list" where
  "timeOfDayRule_basic h episodes suggestions =
     (let recent = inLastDays h episodes 30
      in if length recent = 0 then suggestions
         else
           let minutes = sort (map (minuteOfDay h) recent)
           in timeOfDayRule_basic_on minutes suggestions)"

definition timeOfDayRule_ext_on :: "int list \<Rightarrow> finding list \<Rightarrow> finding list" where
  "timeOfDayRule_ext_on minutes suggestions =
     (let total = length minutes;
               threshold = Math_ceil (of_nat total * 0.4);
               (maxCount, windowStartTime) = sweep minutes 0 0 0 0
           in if maxCount \<ge> threshold then
                let startHour = windowStartTime div 60;
                    endHour = (windowStartTime + 240) div 60;
                    range = pad startHour @ '':00'' @ endash @ pad endHour @ '':00''
                in suggestions @ [\<lparr>title = ''Time'' @ nbhyphen @ ''of'' @ nbhyphen @ ''day cluster'',
                     message = ''A significant share of your episodes occur between '' @ range
                       @ ''. Consider a pre'' @ nbhyphen @ ''emptive routine or relaxation practice then.''\<rparr>]
              else suggestions)"

definition timeOfDayRule_ext :: "host \<Rightarrow> episode list \<Rightarrow> finding list \<Rightarrow> finding list" where
  "timeOfDayRule_ext h episodes suggestions =
     (let recent = inLastDays h episodes 30
      in if length recent = 0 then suggestions
         else
           let minutes = sort (map (minuteOfDay h) recent)
           in timeOfDayRule_ext_on minutes suggestions)"

section \<open>Day of week\<close>

text \<open>\<^verbatim>\<open>weekdays[i]\<close>; outside the array the template prints \<^verbatim>\<open>undefined\<close>.\<close>

definition weekdays :: "string list" where
  "weekdays = [''Sunday'', ''Monday'', ''Tuesday'', ''Wednesday'', ''Thursday'', ''Friday'', ''Saturday'']"

definition weekdayName :: "int \<Rightarrow> string" where
  "weekdayName i = (if 0 \<le> i \<and> i < 7 then weekdays ! nat i else ''undefined'')"

text \<open>\<^verbatim>\<open>counts.indexOf(x)\<close>: the first position of \<open>x\<close>, or \<open>-1\<close>.\<close>

definition indexOf :: "'a list \<Rightarrow> 'a \<Rightarrow> int" where
  "indexOf xs x = (if x \<in> set xs then int (length (takeWhile (\<lambda>y. y \<noteq> x) xs)) else - 1)"

text \<open>
  An object whose keys are hours or weekdays.  These are array indices, so
  \<^verbatim>\<open>Object.entries\<close> lists the entries in ascending order of the key; none is an inherited
  name.
\<close>

definition integerKeyEntries :: "(int \<times> 'v) list \<Rightarrow> (int \<times> 'v) list" where
  "integerKeyEntries obj = sort_key fst obj"

text \<open>\<^verbatim>\<open>weekdayCounts[day] = (weekdayCounts[day] || 0) + 1;\<close>\<close>

fun incrementDay :: "(int \<times> nat) list \<Rightarrow> int \<Rightarrow> (int \<times> nat) list" where
  "incrementDay [] key = [(key, 0 + 1)]"
| "incrementDay ((k, c) # rest) key =
     (if k = key then (k, c + 1) # rest else (k, c) # incrementDay rest key)"

text \<open>
  Basic version: \<^verbatim>\<open>const counts = Array(7).fill(0); ... counts[day]++;\<close> and
  \<^verbatim>\<open>Math.max(...counts)\<close>.
\<close>

definition dayOfWeekRule_basic_on :: "host \<Rightarrow> episode list \<Rightarrow> finding list \<Rightarrow> finding list" where
  "dayOfWeekRule_basic_on h recent suggestions =
     (if length recent = 0 then suggestions
      else
        let counts = foldl (\<lambda>counts ep. let day = nat (getDay h (newDate (datetime ep)))
                                          in counts[day := counts ! day + 1])
                       (replicate 7 (0 :: int)) recent;
            total = length recent;
            threshold = Math_ceil (of_nat total * 0.4);
            maxCount = Max (set counts)
        in if maxCount \<ge> threshold then
             let dayIndex = indexOf counts maxCount
             in suggestions @ [\<lparr>title = ''Day'' @ nbhyphen @ ''of'' @ nbhyphen @ ''week trend'',
                  message = ''About '' @ showInt (Math_round (dmul (ddiv (of_int maxCount) (of_nat total)) 100))
                    @ ''% of recent episodes occur on '' @ weekdayName dayIndex
                    @ ''s. There may be something about those days worth investigating.''\<rparr>]
           else suggestions)"

definition dayOfWeekRule_basic :: "host \<Rightarrow> episode list \<Rightarrow> finding list \<Rightarrow> finding list" where
  "dayOfWeekRule_basic h episodes suggestions =
     (let recent = inLastDays h episodes 30
      in dayOfWeekRule_basic_on h recent suggestions)"

text \<open>
  Extended version: the counts in an object keyed by the weekday, and
  \<^verbatim>\<open>reduce((max, entry) => (entry[1] > max[1] ? entry : max), [null, 0])\<close>.
\<close>

definition dayOfWeekRule_ext_on :: "host \<Rightarrow> episode list \<Rightarrow> finding list \<Rightarrow> finding list" where
  "dayOfWeekRule_ext_on h recent suggestions =
     (if length recent = 0 then suggestions
      else
        let weekdayCounts = foldl (\<lambda>counts ep. let day = getDay h (newDate (datetime ep))
                                                 in incrementDay counts day) [] recent;
            total = length recent;
            threshold = Math_ceil (of_nat total * 0.4);
            maxEntry = foldl (\<lambda>max entry. if int (snd entry) > snd max
                                            then (Some (fst entry), int (snd entry)) else max)
                         (None, 0) (integerKeyEntries weekdayCounts);
            day = fst maxEntry;
            count = snd maxEntry
        in if count \<ge> threshold then
             suggestions @ [\<lparr>title = ''Day'' @ nbhyphen @ ''of'' @ nbhyphen @ ''week cluster'',
               message = ''About '' @ showInt (Math_round (dmul (ddiv (of_int count) (of_nat total)) 100))
                 @ ''% of your episodes happen on ''
                 @ (case day of None \<Rightarrow> ''undefined'' | Some d \<Rightarrow> weekdayName d)
                 @ ''. Reflect on factors specific to that day.''\<rparr>]
           else suggestions)"

definition dayOfWeekRule_ext :: "host \<Rightarrow> episode list \<Rightarrow> finding list \<Rightarrow> finding list" where
  "dayOfWeekRule_ext h episodes suggestions =
     (let recent = inLastDays h episodes 30
      in dayOfWeekRule_ext_on h recent suggestions)"

section \<open>Rising intensity\<close>

text \<open>
  Basic version.  \<^verbatim>\<open>reduce((sum, ep) => sum + ep.intensity, 0) / firstWindow.length\<close>: an
  episode without intensity turns the sum into \<^verbatim>\<open>NaN\<close>.
\<close>

definition intensityNumber :: "episode \<Rightarrow> number" where
  "intensityNumber ep = (case intensity ep of None \<Rightarrow> None | Some i \<Rightarrow> Some (of_int i))"

definition average_basic :: "episode list \<Rightarrow> number" where
  "average_basic window =
     num_div (foldl (\<lambda>sum ep. num_add sum (intensityNumber ep)) (Some 0) window) (length window)"

definition risingIntensityRule_basic_on :: "episode list \<Rightarrow> episode list \<Rightarrow> finding list \<Rightarrow> finding list" where
  "risingIntensityRule_basic_on firstWindow secondWindow suggestions =
     (if length firstWindow = 0 \<or> length secondWindow = 0 then suggestions
              else
                let avg1 = average_basic firstWindow;
                    avg2 = average_basic secondWindow
                in if num_ge avg2 (num_mul avg1 (double 1.2)) then
                     suggestions @ [\<lparr>title = ''Rising intensity'',
                       message = ''Your average migraine intensity over the last three weeks (''
                         @ num_toFixed1 avg2 @ '') is noticeably higher than the preceding three weeks (''
                         @ num_toFixed1 avg1
                         @ ''). It may be worth discussing this with a healthcare professional.''\<rparr>]
                   else suggestions)"

definition risingIntensityRule_basic :: "host \<Rightarrow> episode list \<Rightarrow> finding list \<Rightarrow> finding list" where
  "risingIntensityRule_basic h episodes suggestions =
     (let cutoff = cutoffDate h 42;
          recent = filter (\<lambda>ep. newDate (datetime ep) \<ge> cutoff) episodes
      in if length recent < 2 then suggestions
         else
           let midCutoff = cutoffDate h 21;
               firstWindow = filter (\<lambda>ep. newDate (datetime ep) < midCutoff) recent;
               secondWindow = filter (\<lambda>ep. newDate (datetime ep) \<ge> midCutoff) recent
           in risingIntensityRule_basic_on firstWindow secondWindow suggestions)"

text \<open>
  Extended version.  The key function of the grouping: a week number from the day of the
  year and the weekday counted from Monday.  The quotient by 7 is written exactly: a
  whole number of sevenths that is not a whole number is more than a rounding step away
  from one, so the ceiling of the double is that of the exact quotient.
\<close>

definition weekKey :: "host \<Rightarrow> episode \<Rightarrow> int" where
  "weekKey h ep =
     (let d = newDate (datetime ep);
          first = startOfYear h (getFullYear h d);
          dayOffset = (getDay h d + 6) mod 7;
          dayOfYear = (d - first) div msPerDay + 1
      in Math_ceil (of_int (dayOfYear - dayOffset) / 7))"

text \<open>
  \<^verbatim>\<open>groupBy\<close>: \<^verbatim>\<open>acc[key] = acc[key] || []; acc[key].push(item);\<close>  The object \<^verbatim>\<open>acc\<close> is
  a list of keys with their buckets.
\<close>

fun pushTo :: "('k \<times> 'a list) list \<Rightarrow> 'k \<Rightarrow> 'a \<Rightarrow> ('k \<times> 'a list) list" where
  "pushTo [] key item = [(key, [] @ [item])]"
| "pushTo ((k, bucket) # rest) key item =
     (if k = key then (k, bucket @ [item]) # rest else (k, bucket) # pushTo rest key item)"

definition groupBy :: "'a list \<Rightarrow> ('a \<Rightarrow> 'k) \<Rightarrow> ('k \<times> 'a list) list" where
  "groupBy array keyFn = foldl (\<lambda>acc item. let key = keyFn item in pushTo acc key item) [] array"

text \<open>\<^verbatim>\<open>weekGroups[wn]\<close>, for a key \<^verbatim>\<open>wn\<close> taken from \<^verbatim>\<open>Object.keys(weekGroups)\<close>.\<close>

definition bucketOf :: "('k \<times> 'a list) list \<Rightarrow> 'k \<Rightarrow> 'a list" where
  "bucketOf groups key = (case map_of groups key of None \<Rightarrow> [] | Some bucket \<Rightarrow> bucket)"

text \<open>\<^verbatim>\<open>Number(ep.intensity || 0)\<close>\<close>

definition intensityOrZero :: "episode \<Rightarrow> rat" where
  "intensityOrZero ep = (case intensity ep of None \<Rightarrow> 0 | Some i \<Rightarrow> of_int i)"

definition weeklyAverages :: "host \<Rightarrow> episode list \<Rightarrow> rat list" where
  "weeklyAverages h sixWeeks =
     (let weekGroups = groupBy sixWeeks (weekKey h);
          weekNumbers = sort (map fst weekGroups)
      in map (\<lambda>wn. let eps = bucketOf weekGroups wn;
                        totalIntensity = foldl (\<lambda>sum ep. dadd sum (intensityOrZero ep)) 0 eps
                    in ddiv totalIntensity (of_nat (length eps))) weekNumbers)"

text \<open>
  What the grouping is to compute, said without the dictionary.  The weeks of the window
  in the order of time: the week numbers of its episodes, the earliest episode first,
  each week named once.  The average of a list of episodes: the sum of the intensities,
  an absent one as 0, added from left to right, by the length, in doubles.  And the
  average of a week: that of the episodes of the window with that week number.
\<close>

definition spec_weeks :: "host \<Rightarrow> episode list \<Rightarrow> int list" where
  "spec_weeks h sixWeeks = remdups_adj (map (weekKey h) (sort_key (\<lambda>ep. newDate (datetime ep)) sixWeeks))"

definition spec_mean :: "episode list \<Rightarrow> rat" where
  "spec_mean window = ddiv (foldl dadd 0 (map intensityOrZero window)) (of_nat (length window))"

definition spec_weekMean :: "host \<Rightarrow> episode list \<Rightarrow> int \<Rightarrow> rat" where
  "spec_weekMean h sixWeeks w = spec_mean (filter (\<lambda>ep. weekKey h ep = w) sixWeeks)"

text \<open>\<^verbatim>\<open>arr.reduce((a, b) => a + b, 0) / 3\<close>\<close>

definition average3 :: "rat list \<Rightarrow> rat" where
  "average3 arr = ddiv (foldl (\<lambda>a b. dadd a b) 0 arr) 3"

definition risingIntensityRule_ext_on :: "host \<Rightarrow> episode list \<Rightarrow> finding list \<Rightarrow> finding list" where
  "risingIntensityRule_ext_on h sixWeeks suggestions =
     (if length sixWeeks < 3 then suggestions
         else
           let weeklyAvg = weeklyAverages h sixWeeks;
               len = length weeklyAvg
           in if len < 6 then suggestions
              else
                let last3 = average3 (drop (len - 3) weeklyAvg);
                    prev3 = average3 (take 3 (drop (len - 6) weeklyAvg))
                in if prev3 > 0 \<and> last3 \<ge> dmul prev3 (double 1.2) then
                     suggestions @ [\<lparr>title = ''Rising intensity trend'',
                       message = ''Your 3'' @ nbhyphen
                         @ ''week average intensity has risen by over 20%. Consider consulting a healthcare provider or reviewing possible triggers.''\<rparr>]
                   else suggestions)"

definition risingIntensityRule_ext :: "host \<Rightarrow> episode list \<Rightarrow> finding list \<Rightarrow> finding list" where
  "risingIntensityRule_ext h episodes suggestions =
     (let sixWeeks = inLastDays h episodes 42
      in risingIntensityRule_ext_on h sixWeeks suggestions)"

section \<open>Medication overuse\<close>

text \<open>
  Basic version: \<^verbatim>\<open>Array.isArray(ep.medications) && ep.medications.length > 0\<close>;
  extended version: \<^verbatim>\<open>(ep.medications || []).length > 0\<close>.
\<close>

definition hasMedications :: "episode \<Rightarrow> bool" where
  "hasMedications ep = (case medications ep of None \<Rightarrow> False | Some ms \<Rightarrow> length ms > 0)"

text \<open>
  Basic version: \<^verbatim>\<open>const date = new Date(ep.datetime).toISOString().slice(0, 10); daysWithMeds.add(date);\<close>
  Extended version: \<^verbatim>\<open>daysWithMed.add(ep.datetime.slice(0, 10));\<close>
\<close>

definition daysWithMeds :: "episode list \<Rightarrow> int list" where
  "daysWithMeds recent =
     foldl (\<lambda>daysWithMeds ep.
         if hasMedications ep then
           let date = isoDate (newDate (datetime ep)) in Set_add daysWithMeds date
         else daysWithMeds)
       [] recent"

definition daysWithMed :: "episode list \<Rightarrow> int list" where
  "daysWithMed recent =
     foldl (\<lambda>daysWithMed ep.
         if hasMedications ep then Set_add daysWithMed (slice_0_10 (datetime ep))
         else daysWithMed)
       [] recent"

definition medicationOveruseRule_basic_on :: "episode list \<Rightarrow> finding list \<Rightarrow> finding list" where
  "medicationOveruseRule_basic_on recent suggestions =
     (let size = length (daysWithMeds recent)
      in if size \<ge> 10 then
           suggestions @ [\<lparr>title = ''Medication use'',
             message = ''You've taken migraine medication on '' @ showNat size
               @ '' days in the last month. Overuse can sometimes worsen migraines '' @ endash
               @ '' consider discussing your medication plan with a doctor.''\<rparr>]
         else suggestions)"

definition medicationOveruseRule_basic :: "host \<Rightarrow> episode list \<Rightarrow> finding list \<Rightarrow> finding list" where
  "medicationOveruseRule_basic h episodes suggestions =
     (let recent = inLastDays h episodes 30
      in medicationOveruseRule_basic_on recent suggestions)"

definition medicationOveruseRule_ext_on :: "episode list \<Rightarrow> finding list \<Rightarrow> finding list" where
  "medicationOveruseRule_ext_on recent suggestions =
     (let size = length (daysWithMed recent)
      in if size \<ge> 10 then
           suggestions @ [\<lparr>title = ''Medication usage'',
             message = ''You've used medication on '' @ showNat size
               @ '' days in the last month. Over'' @ nbhyphen
               @ ''use can sometimes worsen migraines; speak with your doctor.''\<rparr>]
         else suggestions)"

definition medicationOveruseRule_ext :: "host \<Rightarrow> episode list \<Rightarrow> finding list \<Rightarrow> finding list" where
  "medicationOveruseRule_ext h episodes suggestions =
     (let recent = inLastDays h episodes 30
      in medicationOveruseRule_ext_on recent suggestions)"

section \<open>Extended version: peak intensity hour and toughest weekday\<close>

text \<open>
  \<^verbatim>\<open>if (!buckets[k]) buckets[k] = { sum: 0, count: 0 };\<close>
  \<^verbatim>\<open>buckets[k].sum += Number(ep.intensity || 0); buckets[k].count += 1;\<close>
\<close>

fun addToBucket :: "(int \<times> rat \<times> nat) list \<Rightarrow> int \<Rightarrow> rat \<Rightarrow> (int \<times> rat \<times> nat) list" where
  "addToBucket [] key x = [(key, dadd 0 x, 0 + 1)]"
| "addToBucket ((k, sm, cnt) # rest) key x =
     (if k = key then (k, dadd sm x, cnt + 1) # rest else (k, sm, cnt) # addToBucket rest key x)"

text \<open>
  \<^verbatim>\<open>Object.entries(buckets).map(([k, val]) => ({ hour: Number(k), avg: val.sum / val.count, count: val.count }))\<close>
  and \<^verbatim>\<open>averages.reduce((max, entry) => (entry.avg > max.avg ? entry : max), averages[0])\<close>;
  an entry is the key, the average and the count.
\<close>

definition bucketAverages :: "(int \<times> rat \<times> nat) list \<Rightarrow> (int \<times> rat \<times> nat) list" where
  "bucketAverages buckets =
     map (\<lambda>(k, sm, cnt). (k, ddiv sm (of_nat cnt), cnt)) (integerKeyEntries buckets)"

definition maxByAverage :: "(int \<times> rat \<times> nat) list \<Rightarrow> (int \<times> rat \<times> nat)" where
  "maxByAverage averages =
     foldl (\<lambda>max entry. if fst (snd entry) > fst (snd max) then entry else max) (hd averages) averages"

definition averageIntensityByHourRule_on :: "host \<Rightarrow> episode list \<Rightarrow> finding list \<Rightarrow> finding list" where
  "averageIntensityByHourRule_on h recent suggestions =
     (if length recent = 0 then suggestions
      else
        let hourBuckets = foldl (\<lambda>buckets ep. let hr = getHours h (newDate (datetime ep))
                                                 in addToBucket buckets hr (intensityOrZero ep)) [] recent;
            averages = bucketAverages hourBuckets
        in if length averages = 0 then suggestions
           else
             let maxEntry = maxByAverage averages
             in if fst (snd maxEntry) \<ge> 6 \<and> snd (snd maxEntry) \<ge> 3 then
                  suggestions @ [\<lparr>title = ''Peak intensity hour'',
                    message = ''Episodes logged around '' @ pad (fst maxEntry)
                      @ '':00 tend to be more intense. Planning rest or adjustments then might help.''\<rparr>]
                else suggestions)"

definition averageIntensityByHourRule :: "host \<Rightarrow> episode list \<Rightarrow> finding list \<Rightarrow> finding list" where
  "averageIntensityByHourRule h episodes suggestions =
     (let recent = inLastDays h episodes 30
      in averageIntensityByHourRule_on h recent suggestions)"

definition averageIntensityByWeekdayRule_on :: "host \<Rightarrow> episode list \<Rightarrow> finding list \<Rightarrow> finding list" where
  "averageIntensityByWeekdayRule_on h recent suggestions =
     (if length recent = 0 then suggestions
      else
        let buckets = foldl (\<lambda>buckets ep. let wd = getDay h (newDate (datetime ep))
                                             in addToBucket buckets wd (intensityOrZero ep)) [] recent;
            avgs = bucketAverages buckets
        in if length avgs = 0 then suggestions
           else
             let top = maxByAverage avgs
             in if fst (snd top) \<ge> 6 \<and> snd (snd top) \<ge> 3 then
                  suggestions @ [\<lparr>title = ''Toughest day'',
                    message = ''Your migraines tend to be most intense on '' @ weekdayName (fst top)
                      @ ''. Consider easing your schedule on those days.''\<rparr>]
                else suggestions)"

definition averageIntensityByWeekdayRule :: "host \<Rightarrow> episode list \<Rightarrow> finding list \<Rightarrow> finding list" where
  "averageIntensityByWeekdayRule h episodes suggestions =
     (let recent = inLastDays h episodes 30
      in averageIntensityByWeekdayRule_on h recent suggestions)"

section \<open>Extended version: consistent tracking streak\<close>

text \<open>
  \<^verbatim>\<open>.sort((a, b) => new Date(b) - new Date(a))\<close>: a stable sort, latest first.
\<close>

definition sortDatesDesc :: "int list \<Rightarrow> int list" where
  "sortDatesDesc dateStrings = sort_key (\<lambda>d. - parseDate d) dateStrings"

text \<open>
  The loop of \<^verbatim>\<open>computeStreak\<close> over neighbouring entries \<^verbatim>\<open>dateStrings[i]\<close>,
  \<^verbatim>\<open>dateStrings[i + 1]\<close>; \<^verbatim>\<open>diff === 1\<close> holds exactly when the two midnights are one day
  of milliseconds apart.
\<close>

fun streakLoop :: "int list \<Rightarrow> nat \<Rightarrow> nat" where
  "streakLoop (s1 # s2 # rest) streak =
     (let d1 = parseDate s1; d2 = parseDate s2
      in if d1 - d2 = msPerDay then streakLoop (s2 # rest) (streak + 1) else streak)"
| "streakLoop rest streak = streak"

definition computeStreak :: "episode list \<Rightarrow> nat" where
  "computeStreak eps =
     (if length eps = 0 then 0
      else let dateStrings = sortDatesDesc (newSet (map (\<lambda>ep. slice_0_10 (datetime ep)) eps))
           in streakLoop dateStrings 1)"

definition streakRule_on :: "episode list \<Rightarrow> finding list \<Rightarrow> finding list" where
  "streakRule_on sortedEpisodes suggestions =
     (let streak = computeStreak sortedEpisodes
      in if streak \<ge> 3 then
           suggestions @ [\<lparr>title = ''Consistent tracking'',
             message = ''Great job! You've logged episodes for '' @ showNat streak
               @ '' consecutive days. Keeping track consistently helps identify patterns.''\<rparr>]
         else suggestions)"

definition streakRule :: "episode list \<Rightarrow> finding list \<Rightarrow> finding list" where
  "streakRule episodes suggestions =
     (let sortedEpisodes = sort_key (\<lambda>ep. - newDate (datetime ep)) episodes
      in streakRule_on sortedEpisodes suggestions)"

section \<open>Extended version: weekly frequency change\<close>

definition weeklyChangeRule_lastWeek :: "host \<Rightarrow> episode list \<Rightarrow> episode list" where
  "weeklyChangeRule_lastWeek h episodes = inLastDays h episodes 7"

definition weeklyChangeRule_prevWeek :: "host \<Rightarrow> episode list \<Rightarrow> episode list" where
  "weeklyChangeRule_prevWeek h episodes =
     (let prevCutoff = cutoffDate h 14;
          prevWeekEnd = cutoffDate h 7
      in filter (\<lambda>ep. let d = newDate (datetime ep) in d \<ge> prevCutoff \<and> d < prevWeekEnd) episodes)"

definition weeklyChangeRule_on :: "episode list \<Rightarrow> episode list \<Rightarrow> finding list \<Rightarrow> finding list" where
  "weeklyChangeRule_on lastWeek prevWeek suggestions =
     (let lastCount = length lastWeek;
          prevCount = length prevWeek
      in if prevCount > 0 \<and> lastCount > prevCount then
           suggestions @ [\<lparr>title = ''Increased frequency'',
             message = ''You logged '' @ showNat lastCount @ '' episodes in the last week, up from ''
               @ showNat prevCount @ '' the week before. Watch for triggers and consider adjustments.''\<rparr>]
         else if prevCount > 0 \<and> lastCount < prevCount then
           suggestions @ [\<lparr>title = ''Decreased frequency'',
             message = ''Nice progress! You've logged fewer episodes this week ('' @ showNat lastCount
               @ '') than the previous week ('' @ showNat prevCount @ ''). Keep it up!''\<rparr>]
         else suggestions)"

definition weeklyChangeRule :: "host \<Rightarrow> episode list \<Rightarrow> finding list \<Rightarrow> finding list" where
  "weeklyChangeRule h episodes suggestions =
     (let lastWeek = weeklyChangeRule_lastWeek h episodes;
          prevWeek = weeklyChangeRule_prevWeek h episodes
      in weeklyChangeRule_on lastWeek prevWeek suggestions)"

section \<open>The engine\<close>

text \<open>
  \<^verbatim>\<open>analysePatterns\<close> of the basic version: five rules, each of which may push one
  finding onto \<^verbatim>\<open>suggestions\<close>.  The host stands for \<^verbatim>\<open>const now = new Date()\<close>.
\<close>

definition analysePatterns_basic :: "host \<Rightarrow> episode list \<Rightarrow> finding list" where
  "analysePatterns_basic h episodes =
     (let suggestions = []
      in if length episodes = 0 then suggestions
         else
           let s1 = topTriggersRule_basic h episodes suggestions;
               s2 = timeOfDayRule_basic h episodes s1;
               s3 = dayOfWeekRule_basic h episodes s2;
               s4 = risingIntensityRule_basic h episodes s3;
               s5 = medicationOveruseRule_basic h episodes s4
           in s5)"

text \<open>\<^verbatim>\<open>analysePatterns\<close> of the extended version: nine rules.\<close>

definition analysePatterns_ext :: "host \<Rightarrow> episode list \<Rightarrow> finding list" where
  "analysePatterns_ext h episodes =
     (let suggestions = []
      in if length episodes = 0 then suggestions
         else
           let s1 = topTriggersRule_ext h episodes suggestions;
               s2 = timeOfDayRule_ext h episodes s1;
               s3 = dayOfWeekRule_ext h episodes s2;
               s4 = risingIntensityRule_ext h episodes s3;
               s5 = medicationOveruseRule_ext h episodes s4;
               s6 = averageIntensityByHourRule h episodes s5;
               s7 = averageIntensityByWeekdayRule h episodes s6;
               s8 = streakRule episodes s7;
               s9 = weeklyChangeRule h episodes s8
           in s9)"

section \<open>The arrays of the engine in a store\<close>

text \<open>
  To say that the input array is left as it was, the arrays get addresses.  A store is the
  list of the arrays allocated so far, an address is a position in it.  Episode objects are
  values: no statement of \<^verbatim>\<open>patterns.js\<close> assigns to a field of an episode, so only the
  arrays can change.  The store holds the arrays whose elements are episodes, and the
  array of minutes that the time-of-day rule sorts; the other temporaries (strings, counts,
  buckets) are built from scratch inside one rule and stay values.
\<close>

datatype jsarray = Episodes "episode list" | Numbers "int list"

type_synonym store = "jsarray list"

definition alloc :: "jsarray \<Rightarrow> store \<Rightarrow> nat \<times> store" where
  "alloc a st = (length st, st @ [a])"

definition episodesAt :: "store \<Rightarrow> nat \<Rightarrow> episode list" where
  "episodesAt st r =
     (if r < length st then (case st ! r of Episodes es \<Rightarrow> es | Numbers ns \<Rightarrow> []) else [])"

definition numbersAt :: "store \<Rightarrow> nat \<Rightarrow> int list" where
  "numbersAt st r =
     (if r < length st then (case st ! r of Numbers ns \<Rightarrow> ns | Episodes es \<Rightarrow> []) else [])"

text \<open>
  \<^verbatim>\<open>arr.filter(p)\<close>, \<^verbatim>\<open>arr.slice()\<close> and \<^verbatim>\<open>arr.map(f)\<close> return a new array;
  \<^verbatim>\<open>arr.sort(cmp)\<close> sorts the array it is called on, in place.
\<close>

definition Array_filter :: "(episode \<Rightarrow> bool) \<Rightarrow> nat \<Rightarrow> store \<Rightarrow> nat \<times> store" where
  "Array_filter p arr st = alloc (Episodes (filter p (episodesAt st arr))) st"

definition Array_slice :: "nat \<Rightarrow> store \<Rightarrow> nat \<times> store" where
  "Array_slice arr st = alloc (Episodes (episodesAt st arr)) st"

definition Array_map :: "(episode \<Rightarrow> int) \<Rightarrow> nat \<Rightarrow> store \<Rightarrow> nat \<times> store" where
  "Array_map f arr st = alloc (Numbers (map f (episodesAt st arr))) st"

definition Array_sort_episodes :: "(episode \<Rightarrow> int) \<Rightarrow> nat \<Rightarrow> store \<Rightarrow> store" where
  "Array_sort_episodes key arr st = st[arr := Episodes (sort_key key (episodesAt st arr))]"

definition Array_sort_numbers :: "nat \<Rightarrow> store \<Rightarrow> store" where
  "Array_sort_numbers arr st = st[arr := Numbers (sort (numbersAt st arr))]"

text \<open>
  The rules again, now on the address \<open>episodes\<close> of the input array.  Each creates and sorts
  the arrays that its source text creates and sorts, and hands them to the same
  computation as before.
\<close>

definition inLastDays_st :: "host \<Rightarrow> nat \<Rightarrow> int \<Rightarrow> store \<Rightarrow> nat \<times> store" where
  "inLastDays_st h episodes days st =
     (let cutoff = cutoffDate h days
      in Array_filter (\<lambda>ep. newDate (datetime ep) \<ge> cutoff) episodes st)"

definition topTriggersRule_basic_st :: "host \<Rightarrow> nat \<Rightarrow> finding list \<Rightarrow> store \<Rightarrow> finding list \<times> store" where
  "topTriggersRule_basic_st h episodes suggestions st =
     (let (recent, st1) = inLastDays_st h episodes 30 st
      in (topTriggersRule_basic_on h (episodesAt st1 recent) suggestions, st1))"

definition topTriggersRule_ext_st :: "host \<Rightarrow> nat \<Rightarrow> finding list \<Rightarrow> store \<Rightarrow> finding list \<times> store" where
  "topTriggersRule_ext_st h episodes suggestions st =
     (let (recent, st1) = inLastDays_st h episodes 30 st
      in (topTriggersRule_ext_on h (episodesAt st1 recent) suggestions, st1))"

text \<open>
  Basic version: \<^verbatim>\<open>const minutes = recent.map(...); minutes.sort((a, b) => a - b);\<close>
  Extended version: \<^verbatim>\<open>const minutes = recent.map(...).sort((a, b) => a - b);\<close>
\<close>

definition timeOfDayRule_basic_st :: "host \<Rightarrow> nat \<Rightarrow> finding list \<Rightarrow> store \<Rightarrow> finding list \<times> store" where
  "timeOfDayRule_basic_st h episodes suggestions st =
     (let (recent, st1) = inLastDays_st h episodes 30 st
      in if length (episodesAt st1 recent) = 0 then (suggestions, st1)
         else
           let (minutes, st2) = Array_map (minuteOfDay h) recent st1;
               st3 = Array_sort_numbers minutes st2
           in (timeOfDayRule_basic_on (numbersAt st3 minutes) suggestions, st3))"

definition timeOfDayRule_ext_st :: "host \<Rightarrow> nat \<Rightarrow> finding list \<Rightarrow> store \<Rightarrow> finding list \<times> store" where
  "timeOfDayRule_ext_st h episodes suggestions st =
     (let (recent, st1) = inLastDays_st h episodes 30 st
      in if length (episodesAt st1 recent) = 0 then (suggestions, st1)
         else
           let (minutes, st2) = Array_map (minuteOfDay h) recent st1;
               st3 = Array_sort_numbers minutes st2
           in (timeOfDayRule_ext_on (numbersAt st3 minutes) suggestions, st3))"

definition dayOfWeekRule_basic_st :: "host \<Rightarrow> nat \<Rightarrow> finding list \<Rightarrow> store \<Rightarrow> finding list \<times> store" where
  "dayOfWeekRule_basic_st h episodes suggestions st =
     (let (recent, st1) = inLastDays_st h episodes 30 st
      in (dayOfWeekRule_basic_on h (episodesAt st1 recent) suggestions, st1))"

definition dayOfWeekRule_ext_st :: "host \<Rightarrow> nat \<Rightarrow> finding list \<Rightarrow> store \<Rightarrow> finding list \<times> store" where
  "dayOfWeekRule_ext_st h episodes suggestions st =
     (let (recent, st1) = inLastDays_st h episodes 30 st
      in (dayOfWeekRule_ext_on h (episodesAt st1 recent) suggestions, st1))"

definition risingIntensityRule_basic_st :: "host \<Rightarrow> nat \<Rightarrow> finding list \<Rightarrow> store \<Rightarrow> finding list \<times> store" where
  "risingIntensityRule_basic_st h episodes suggestions st =
     (let cutoff = cutoffDate h 42;
          (recent, st1) = Array_filter (\<lambda>ep. newDate (datetime ep) \<ge> cutoff) episodes st
      in if length (episodesAt st1 recent) < 2 then (suggestions, st1)
         else
           let midCutoff = cutoffDate h 21;
               (firstWindow, st2) = Array_filter (\<lambda>ep. newDate (datetime ep) < midCutoff) recent st1;
               (secondWindow, st3) = Array_filter (\<lambda>ep. newDate (datetime ep) \<ge> midCutoff) recent st2
           in (risingIntensityRule_basic_on (episodesAt st3 firstWindow) (episodesAt st3 secondWindow)
                 suggestions, st3))"

definition risingIntensityRule_ext_st :: "host \<Rightarrow> nat \<Rightarrow> finding list \<Rightarrow> store \<Rightarrow> finding list \<times> store" where
  "risingIntensityRule_ext_st h episodes suggestions st =
     (let (sixWeeks, st1) = inLastDays_st h episodes 42 st
      in (risingIntensityRule_ext_on h (episodesAt st1 sixWeeks) suggestions, st1))"

definition medicationOveruseRule_basic_st :: "host \<Rightarrow> nat \<Rightarrow> finding list \<Rightarrow> store \<Rightarrow> finding list \<times> store" where
  "medicationOveruseRule_basic_st h episodes suggestions st =
     (let (recent, st1) = inLastDays_st h episodes 30 st
      in (medicationOveruseRule_basic_on (episodesAt st1 recent) suggestions, st1))"

definition medicationOveruseRule_ext_st :: "host \<Rightarrow> nat \<Rightarrow> finding list \<Rightarrow> store \<Rightarrow> finding list \<times> store" where
  "medicationOveruseRule_ext_st h episodes suggestions st =
     (let (recent, st1) = inLastDays_st h episodes 30 st
      in (medicationOveruseRule_ext_on (episodesAt st1 recent) suggestions, st1))"

definition averageIntensityByHourRule_st :: "host \<Rightarrow> nat \<Rightarrow> finding list \<Rightarrow> store \<Rightarrow> finding list \<times> store" where
  "averageIntensityByHourRule_st h episodes suggestions st =
     (let (recent, st1) = inLastDays_st h episodes 30 st
      in (averageIntensityByHourRule_on h (episodesAt st1 recent) suggestions, st1))"

definition averageIntensityByWeekdayRule_st :: "host \<Rightarrow> nat \<Rightarrow> finding list \<Rightarrow> store \<Rightarrow> finding list \<times> store" where
  "averageIntensityByWeekdayRule_st h episodes suggestions st =
     (let (recent, st1) = inLastDays_st h episodes 30 st
      in (averageIntensityByWeekdayRule_on h (episodesAt st1 recent) suggestions, st1))"

text \<open>
  \<^verbatim>\<open>const sortedEpisodes = episodes.slice().sort((a, b) => new Date(b.datetime) - new Date(a.datetime));\<close>
\<close>

definition streakRule_st :: "nat \<Rightarrow> finding list \<Rightarrow> store \<Rightarrow> finding list \<times> store" where
  "streakRule_st episodes suggestions st =
     (let (sortedEpisodes, st1) = Array_slice episodes st;
          st2 = Array_sort_episodes (\<lambda>ep. - newDate (datetime ep)) sortedEpisodes st1
      in (streakRule_on (episodesAt st2 sortedEpisodes) suggestions, st2))"

definition weeklyChangeRule_st :: "host \<Rightarrow> nat \<Rightarrow> finding list \<Rightarrow> store \<Rightarrow> finding list \<times> store" where
  "weeklyChangeRule_st h episodes suggestions st =
     (let (lastWeek, st1) = inLastDays_st h episodes 7 st;
          prevCutoff = cutoffDate h 14;
          prevWeekEnd = cutoffDate h 7;
          (prevWeek, st2) = Array_filter (\<lambda>ep. let d = newDate (datetime ep) in d \<ge> prevCutoff \<and> d < prevWeekEnd)
                              episodes st1
      in (weeklyChangeRule_on (episodesAt st2 lastWeek) (episodesAt st2 prevWeek) suggestions, st2))"

definition analysePatterns_basic_st :: "host \<Rightarrow> nat \<Rightarrow> store \<Rightarrow> finding list \<times> store" where
  "analysePatterns_basic_st h episodes st =
     (let suggestions = []
      in if length (episodesAt st episodes) = 0 then (suggestions, st)
         else
           let (s1, st1) = topTriggersRule_basic_st h episodes suggestions st;
               (s2, st2) = timeOfDayRule_basic_st h episodes s1 st1;
               (s3, st3) = dayOfWeekRule_basic_st h episodes s2 st2;
               (s4, st4) = risingIntensityRule_basic_st h episodes s3 st3;
               (s5, st5) = medicationOveruseRule_basic_st h episodes s4 st4
           in (s5, st5))"

definition analysePatterns_ext_st :: "host \<Rightarrow> nat \<Rightarrow> store \<Rightarrow> finding list \<times> store" where
  "analysePatterns_ext_st h episodes st =
     (let suggestions = []
      in if length (episodesAt st episodes) = 0 then (suggestions, st)
         else
           let (s1, st1) = topTriggersRule_ext_st h episodes suggestions st;
               (s2, st2) = timeOfDayRule_ext_st h episodes s1 st1;
               (s3, st3) = dayOfWeekRule_ext_st h episodes s2 st2;
               (s4, st4) = risingIntensityRule_ext_st h episodes s3 st3;
               (s5, st5) = medicationOveruseRule_ext_st h episodes s4 st4;
               (s6, st6) = averageIntensityByHourRule_st h episodes s5 st5;
               (s7, st7) = averageIntensityByWeekdayRule_st h episodes s6 st6;
               (s8, st8) = streakRule_st episodes s7 st7;
               (s9, st9) = weeklyChangeRule_st h episodes s8 st8
           in (s9, st9))"

text \<open>A store keeps an earlier one when it only has more arrays: the old ones are as they were.\<close>

definition keeps :: "store \<Rightarrow> store \<Rightarrow> bool" where
  "keeps st st' \<longleftrightarrow> prefix st st'"

section \<open>Sample data\<close>

text \<open>
  The methods of \<^verbatim>\<open>String\<close> on ASCII text, where every runtime agrees: \<^verbatim>\<open>trim\<close> removes
  tabs, line ends and spaces from both sides, \<^verbatim>\<open>toLowerCase\<close> and \<^verbatim>\<open>toUpperCase\<close> change
  the letters A to Z.
\<close>

definition asciiWhiteSpace :: "char \<Rightarrow> bool" where
  "asciiWhiteSpace c = (c \<in> set [CHR 0x09, CHR 0x0A, CHR 0x0B, CHR 0x0C, CHR 0x0D, CHR 0x20])"

definition asciiTrim :: "string \<Rightarrow> string" where
  "asciiTrim s = rev (dropWhile asciiWhiteSpace (rev (dropWhile asciiWhiteSpace s)))"

definition asciiLowerChar :: "char \<Rightarrow> char" where
  "asciiLowerChar c = (let n = (of_char c :: nat) in if 65 \<le> n \<and> n \<le> 90 then char_of (n + 32) else c)"

definition asciiUpperChar :: "char \<Rightarrow> char" where
  "asciiUpperChar c = (let n = (of_char c :: nat) in if 97 \<le> n \<and> n \<le> 122 then char_of (n - 32) else c)"

text \<open>A zone that keeps one offset, in minutes, positive east of Greenwich.\<close>

definition fixedZone :: "int \<Rightarrow> int \<Rightarrow> bool \<Rightarrow> int" where
  "fixedZone minutes t isUTC = minutes * 60000"

text \<open>
  New York in 2023: five hours behind UTC, four from 12 March, 02:00 local time (07:00
  UTC), to 5 November, 02:00 local time (06:00 UTC).  A local time in the hour that the
  clocks skip is read with the offset before the change, one in the hour that they repeat
  as the first of the two.
\<close>

definition newYork2023 :: "int \<Rightarrow> bool \<Rightarrow> int" where
  "newYork2023 t isUTC =
     (if isUTC then (if 1678604400000 \<le> t \<and> t < 1699164000000 then - 4 * 3600000 else - 5 * 3600000)
      else (if 1678590000000 \<le> t \<and> t < 1699149600000 then - 4 * 3600000 else - 5 * 3600000))"

definition hostAt :: "int \<Rightarrow> (int \<Rightarrow> bool \<Rightarrow> int) \<Rightarrow> host" where
  "hostAt t zone = \<lparr>now = t, localTZA = zone, trim = asciiTrim,
     toLowerCase = map asciiLowerChar, toUpperCase = map asciiUpperChar\<rparr>"

text \<open>
  Noon UTC on 2023-06-15 is day 19523 of the epoch.  The first sample host sits in UTC, the
  second two hours east of Greenwich, at that instant.  The other two sit in New York, at
  2023-11-10T12:00Z (day 19671) and at 2023-03-15T16:00Z (day 19431), a few days after the
  clocks changed.
\<close>

definition noon :: "int \<Rightarrow> int" where
  "noon day = day * msPerDay + 12 * 3600000"

definition host0 :: host where
  "host0 = hostAt (noon 19523) (fixedZone 0)"

definition hostEast :: host where
  "hostEast = hostAt (noon 19523) (fixedZone 120)"

definition hostAutumn :: host where
  "hostAutumn = hostAt (noon 19671) newYork2023"

definition hostSpring :: host where
  "hostSpring = hostAt (19431 * msPerDay + 16 * 3600000) newYork2023"

text \<open>An episode stored the way the form stores it: the text written by \<^verbatim>\<open>toISOString\<close>.\<close>

definition episodeAt :: "int \<Rightarrow> episode" where
  "episodeAt t = \<lparr>id_field = ''e'', datetime = \<lparr>instant = t, offsetMinutes = 0\<rparr>, intensity = Some 5,
     durationMinutes = 60, triggers = Some [], medications = Some [], notes_field = ''''\<rparr>"

definition episodeAtTime :: "int \<Rightarrow> int \<Rightarrow> int \<Rightarrow> episode" where
  "episodeAtTime day hour minute = episodeAt (day * msPerDay + hour * 3600000 + minute * 60000)"

definition episodesOn :: "int list \<Rightarrow> episode list" where
  "episodesOn days = map (\<lambda>d. episodeAt (noon d)) days"

definition instants :: "episode list \<Rightarrow> int list" where
  "instants eps = map (\<lambda>ep. newDate (datetime ep)) eps"

text \<open>
  Six episodes of the last week, four at 19:00 and two at 09:00; two late ones, at 21:30
  and 22:00.
\<close>

definition eveningSample :: "episode list" where
  "eveningSample = [episodeAtTime 19521 19 0, episodeAtTime 19520 19 0, episodeAtTime 19519 19 0,
     episodeAtTime 19518 19 0, episodeAtTime 19517 9 0, episodeAtTime 19516 9 0]"

definition lateSample :: "episode list" where
  "lateSample = [episodeAtTime 19520 21 30, episodeAtTime 19521 22 0]"

text \<open>
  Ten episodes with a medication: eight at noon UTC of the days 19514 to 19521, one at
  23:00 UTC of day 19522 (01:00 of day 19523 two hours east of Greenwich) and one at 10:00
  UTC of day 19523 (12:00 there).
\<close>

definition medicatedAt :: "int \<Rightarrow> episode" where
  "medicatedAt t = (episodeAt t)\<lparr>medications := Some [\<lparr>name = ''painkiller'', doseMg = Some 50\<rparr>]\<rparr>"

definition tenDaysSample :: "episode list" where
  "tenDaysSample = map (\<lambda>d. medicatedAt (noon d)) [19514, 19515, 19516, 19517, 19518, 19519, 19520, 19521]
     @ [medicatedAt (19522 * msPerDay + 23 * 3600000), medicatedAt (19523 * msPerDay + 10 * 3600000)]"

definition localDates :: "host \<Rightarrow> episode list \<Rightarrow> int list" where
  "localDates h eps = remdups (map (\<lambda>ep. localDate h (newDate (datetime ep))) eps)"




text \<open>
  One episode in each of the last six weeks: three of intensity 2 in the older half of the
  42-day window, three of intensity 5 in the newer half.  And two episodes of intensity 0,
  one in each half.
\<close>

definition intenseAt :: "int \<Rightarrow> int \<Rightarrow> episode" where
  "intenseAt t i = (episodeAt t)\<lparr>intensity := Some i\<rparr>"

definition risingSample :: "episode list" where
  "risingSample = [intenseAt (noon 19487) 2, intenseAt (noon 19493) 2, intenseAt (noon 19499) 2,
     intenseAt (noon 19508) 5, intenseAt (noon 19514) 5, intenseAt (noon 19520) 5]"

definition painlessSample :: "episode list" where
  "painlessSample = [intenseAt (noon 19490) 0, intenseAt (noon 19520) 0]"

text \<open>
  Eight episodes of the last six weeks: three of the intensities 2, 2 and 3 in the older
  half, five of the intensities 1, 3, 3, 3 and 4 in the newer half.  The averages are 7/3
  and 14/5, and 14/5 is 7/3 times 1.2.
\<close>

definition roundingSample :: "episode list" where
  "roundingSample = [intenseAt (noon 19487) 2, intenseAt (noon 19493) 2, intenseAt (noon 19499) 3,
     intenseAt (noon 19508) 1, intenseAt (noon 19510) 3, intenseAt (noon 19514) 3,
     intenseAt (noon 19518) 3, intenseAt (noon 19520) 4]"

text \<open>
  Two episodes in the order of time, the earlier at 19:00 and the later at 09:00, as the
  only array of a store.
\<close>

definition unsortedSample :: "episode list" where
  "unsortedSample = [episodeAtTime 19520 19 0, episodeAtTime 19522 9 0]"

definition store0 :: store where
  "store0 = [Episodes unsortedSample]"

text \<open>
  Three episodes of the last six weeks: one of intensity 1 in the older half, and in the
  newer half one without an intensity and one of intensity 10.  The second list has the
  intensity 0 where the first has none.
\<close>

definition absentSample :: "episode list" where
  "absentSample = [intenseAt (noon 19493) 1, (episodeAt (noon 19513))\<lparr>intensity := None\<rparr>,
     intenseAt (noon 19518) 10]"

definition zeroSample :: "episode list" where
  "zeroSample = [intenseAt (noon 19493) 1, intenseAt (noon 19513) 0, intenseAt (noon 19518) 10]"

section \<open>Lemmas: weekly buckets and averages\<close>

lemma pushTo_keys:
  "map fst (pushTo acc key item) =
     (if key \<in> set (map fst acc) then map fst acc else map fst acc @ [key])"
  by (induction acc key item rule: pushTo.induct) auto

lemma pushTo_map_of:
  "map_of (pushTo acc key item) k =
     (if k = key then Some ((case map_of acc key of None \<Rightarrow> [] | Some b \<Rightarrow> b) @ [item])
      else map_of acc k)"
  by (induction acc key item rule: pushTo.induct) auto

lemma foldl_pushTo_keys:
  "distinct (map fst acc) \<Longrightarrow>
   distinct (map fst (foldl (\<lambda>acc item. pushTo acc (f item) item) acc xs))
   \<and> set (map fst (foldl (\<lambda>acc item. pushTo acc (f item) item) acc xs)) = set (map fst acc) \<union> f ` set xs"
proof (induction xs arbitrary: acc)
  case Nil
  then show ?case by simp
next
  case (Cons x xs)
  have d: "distinct (map fst (pushTo acc (f x) x))"
    using Cons.prems by (simp add: pushTo_keys)
  show ?case
    using Cons.IH [OF d] by (auto simp: pushTo_keys)
qed

lemma foldl_pushTo_map_of:
  "map_of (foldl (\<lambda>acc item. pushTo acc (f item) item) acc xs) k =
     (if filter (\<lambda>x. f x = k) xs = [] then map_of acc k
      else Some ((case map_of acc k of None \<Rightarrow> [] | Some b \<Rightarrow> b) @ filter (\<lambda>x. f x = k) xs))"
proof (induction xs arbitrary: acc)
  case Nil
  then show ?case by simp
next
  case (Cons x xs)
  show ?case
    by (simp add: Cons.IH pushTo_map_of split: option.splits)
qed

lemma groupBy_keys:
  "distinct (map fst (groupBy xs f))" "set (map fst (groupBy xs f)) = f ` set xs"
  using foldl_pushTo_keys [of "[]" f xs] by (simp_all add: groupBy_def Let_def)

lemma bucketOf_groupBy:
  "bucketOf (groupBy xs f) k = filter (\<lambda>x. f x = k) xs"
  by (simp add: bucketOf_def groupBy_def Let_def foldl_pushTo_map_of)

lemma foldl_intensity:
  "foldl (\<lambda>sum ep. dadd sum (intensityOrZero ep)) a eps = foldl dadd a (map intensityOrZero eps)"
  by (induction eps arbitrary: a) simp_all

lemma sorted_distinct_remdups_adj:
  fixes xs :: "int list"
  shows "sorted xs \<Longrightarrow> distinct (remdups_adj xs)"
proof (induction xs rule: remdups_adj.induct)
  case (3 x y xs)
  show ?case
  proof (cases "x = y")
    case True
    then show ?thesis using 3 by simp
  next
    case False
    have "x \<notin> set (remdups_adj (y # xs))"
      using 3(3) False by (auto simp del: remdups_adj.simps)
    then show ?thesis using 3 False by simp
  qed
qed simp_all

lemma sorted_remdups_adj_eq:
  fixes xs :: "int list"
  assumes "sorted xs"
  shows "remdups_adj xs = sorted_list_of_set (set xs)"
proof -
  have "sorted (remdups_adj xs)" using assms by (rule sorted_remdups_adj)
  moreover have "distinct (remdups_adj xs)" using assms by (rule sorted_distinct_remdups_adj)
  ultimately have "sorted_list_of_set (set (remdups_adj xs)) = remdups_adj xs"
    by (rule sorted_list_of_set.idem_if_sorted_distinct)
  then show ?thesis by simp
qed

lemma weekNumbers_spec:
  assumes "sorted (map (weekKey h) (sort_key (\<lambda>ep. newDate (datetime ep)) sixWeeks))"
  shows "sort (map fst (groupBy sixWeeks (weekKey h))) = spec_weeks h sixWeeks"
proof -
  have "sorted_list_of_set (set (map fst (groupBy sixWeeks (weekKey h))))
      = sort (remdups (map fst (groupBy sixWeeks (weekKey h))))"
    by (rule sorted_list_of_set_sort_remdups)
  also have "\<dots> = sort (map fst (groupBy sixWeeks (weekKey h)))"
    using groupBy_keys(1) [of sixWeeks "weekKey h"] by (simp only: distinct_remdups_id)
  finally have "sort (map fst (groupBy sixWeeks (weekKey h))) = sorted_list_of_set (weekKey h ` set sixWeeks)"
    unfolding groupBy_keys(2) by (rule sym)
  also have "\<dots> = spec_weeks h sixWeeks"
    unfolding spec_weeks_def using sorted_remdups_adj_eq [OF assms] by simp
  finally show ?thesis .
qed

lemma weeklyAverages_spec:
  assumes "sorted (map (weekKey h) (sort_key (\<lambda>ep. newDate (datetime ep)) sixWeeks))"
  shows "weeklyAverages h sixWeeks = map (spec_weekMean h sixWeeks) (spec_weeks h sixWeeks)"
  unfolding weeklyAverages_def Let_def weekNumbers_spec [OF assms]
  by (simp add: bucketOf_groupBy foldl_intensity spec_weekMean_def spec_mean_def)

lemma spec_weeks_length:
  "length (spec_weeks h sixWeeks) \<le> length sixWeeks"
proof -
  have "length (spec_weeks h sixWeeks) \<le> length (map (weekKey h) (sort_key (\<lambda>ep. newDate (datetime ep)) sixWeeks))"
    unfolding spec_weeks_def by (rule remdups_adj_length)
  then show ?thesis by simp
qed

lemma average_basic_present:
  assumes "\<forall>ep \<in> set window. intensity ep \<noteq> None"
  shows "average_basic window = Some (spec_mean window)"
proof -
  have "foldl (\<lambda>sum ep. num_add sum (intensityNumber ep)) (Some a) window
      = Some (foldl dadd a (map intensityOrZero window))" for a
    using assms
    by (induction window arbitrary: a)
       (auto simp: num_add_def intensityNumber_def intensityOrZero_def split: option.splits)
  then show ?thesis
    by (simp add: average_basic_def num_div_def spec_mean_def)
qed

lemma toFixed1_one_decimal:
  assumes "0 \<le> x"
  shows "\<exists>n. toFixed1 x = showInt (n div 10) @ ''.'' @ showInt (n mod 10)
           \<and> 0 \<le> n mod 10 \<and> n mod 10 < 10 \<and> \<bar>x - of_int n / 10\<bar> \<le> 1 / 20"
proof -
  let ?n = "\<lfloor>\<bar>x\<bar> * 10 + 1 / 2\<rfloor>"
  have ax: "\<bar>x\<bar> = x" using assms by simp
  have "of_int ?n \<le> x * 10 + 1 / 2" "x * 10 + 1 / 2 < of_int ?n + 1"
    unfolding ax by linarith+
  then have "\<bar>x - of_int ?n / 10\<bar> \<le> 1 / 20" by linarith
  then show ?thesis
    using assms by (intro exI [of _ ?n]) (simp add: toFixed1_def Let_def)
qed

lemma risingIntensityRule_ext_spec:
  fixes h :: host and episodes :: "episode list"
  defines "sixWeeks \<equiv> inLastDays h episodes 42"
  defines "weeks \<equiv> spec_weeks h sixWeeks"
  defines "n \<equiv> length weeks"
  defines "last3 \<equiv> average3 (map (spec_weekMean h sixWeeks) (drop (n - 3) weeks))"
  defines "prev3 \<equiv> average3 (map (spec_weekMean h sixWeeks) (take 3 (drop (n - 6) weeks)))"
  assumes chrono: "sorted (map (weekKey h) (sort_key (\<lambda>ep. newDate (datetime ep)) sixWeeks))"
    and gate: "6 \<le> n"
  shows "risingIntensityRule_ext h episodes suggestions =
           (if prev3 > 0 \<and> last3 \<ge> dmul prev3 (double 1.2) then
              suggestions @ [\<lparr>title = ''Rising intensity trend'',
                message = ''Your 3'' @ nbhyphen
                  @ ''week average intensity has risen by over 20%. Consider consulting a healthcare provider or reviewing possible triggers.''\<rparr>]
            else suggestions)"
proof -
  have len: "length (weeklyAverages h sixWeeks) = n"
    by (simp add: weeklyAverages_spec [OF chrono] n_def weeks_def)
  have card: "n \<le> length sixWeeks"
    unfolding n_def weeks_def by (rule spec_weeks_length)
  have enough: "\<not> length sixWeeks < 3" using gate card by simp
  show ?thesis
    using gate enough
    unfolding risingIntensityRule_ext_def risingIntensityRule_ext_on_def sixWeeks_def [symmetric] Let_def len
    by (simp add: weeklyAverages_spec [OF chrono] weeks_def [symmetric] last3_def prev3_def
        drop_map take_map)
qed

lemma filter_by_key:
  "filter (\<lambda>x. f x = w) xs = map snd (filter (\<lambda>p. fst p = w) (zip (map f xs) xs))"
  by (induction xs) auto

lemma spec_weekMean_zip:
  "spec_weekMean h sixWeeks w =
     spec_mean (map snd (filter (\<lambda>p. fst p = w) (zip (map (weekKey h) sixWeeks) sixWeeks)))"
  unfolding spec_weekMean_def by (rule arg_cong [OF filter_by_key])

lemma spec_weeks_map:
  "spec_weeks h sixWeeks = remdups_adj (map (weekKey h) (sort_key (\<lambda>ep. newDate (datetime ep)) sixWeeks))"
  by (simp add: spec_weeks_def)

section \<open>Lemmas: the arrays of the engine\<close>

lemma keeps_refl [simp]: "keeps st st"
  by (simp add: keeps_def)

lemma keeps_trans: "keeps st st' \<Longrightarrow> keeps st' st'' \<Longrightarrow> keeps st st''"
  by (auto simp: keeps_def)

lemma keeps_append [simp]: "keeps st (st @ ext)"
  by (simp add: keeps_def)

lemma keeps_length: "keeps st st' \<Longrightarrow> length st \<le> length st'"
  by (simp add: keeps_def prefix_length_le)

lemma keeps_nth: "keeps st st' \<Longrightarrow> r < length st \<Longrightarrow> st' ! r = st ! r"
  by (auto simp: keeps_def prefix_def nth_append)

lemma keeps_episodesAt: "keeps st st' \<Longrightarrow> r < length st \<Longrightarrow> episodesAt st' r = episodesAt st r"
  using keeps_nth [of st st' r] keeps_length [of st st'] by (simp add: episodesAt_def)

lemma Array_filter_eq: "Array_filter p arr st = (length st, st @ [Episodes (filter p (episodesAt st arr))])"
  by (simp add: Array_filter_def alloc_def)

lemma Array_slice_eq: "Array_slice arr st = (length st, st @ [Episodes (episodesAt st arr)])"
  by (simp add: Array_slice_def alloc_def)

lemma Array_map_eq: "Array_map f arr st = (length st, st @ [Numbers (map f (episodesAt st arr))])"
  by (simp add: Array_map_def alloc_def)

lemma episodesAt_fresh [simp]: "episodesAt (st @ [Episodes es]) (length st) = es"
  by (simp add: episodesAt_def)

lemma numbersAt_fresh [simp]: "numbersAt (st @ [Numbers ns]) (length st) = ns"
  by (simp add: numbersAt_def)

lemma episodesAt_old [simp]: "r < length st \<Longrightarrow> episodesAt (st @ ext) r = episodesAt st r"
  by (simp add: episodesAt_def nth_append)

lemma Array_sort_numbers_fresh [simp]:
  "Array_sort_numbers (length st) (st @ [Numbers ns]) = st @ [Numbers (sort ns)]"
  by (simp add: Array_sort_numbers_def)

lemma Array_sort_episodes_fresh [simp]:
  "Array_sort_episodes key (length st) (st @ [Episodes es]) = st @ [Episodes (sort_key key es)]"
  by (simp add: Array_sort_episodes_def)

lemma inLastDays_st_eq:
  "inLastDays_st h episodes days st = (length st, st @ [Episodes (inLastDays h (episodesAt st episodes) days)])"
  by (simp add: inLastDays_st_def inLastDays_def Array_filter_eq Let_def)

lemma topTriggersRule_basic_st_sound:
  "r < length st \<Longrightarrow>
   fst (topTriggersRule_basic_st h r s st) = topTriggersRule_basic h (episodesAt st r) s
   \<and> keeps st (snd (topTriggersRule_basic_st h r s st))"
  by (simp add: topTriggersRule_basic_st_def topTriggersRule_basic_def inLastDays_st_eq)

lemma topTriggersRule_ext_st_sound:
  "r < length st \<Longrightarrow>
   fst (topTriggersRule_ext_st h r s st) = topTriggersRule_ext h (episodesAt st r) s
   \<and> keeps st (snd (topTriggersRule_ext_st h r s st))"
  by (simp add: topTriggersRule_ext_st_def topTriggersRule_ext_def inLastDays_st_eq)

lemma timeOfDayRule_basic_st_sound:
  "r < length st \<Longrightarrow>
   fst (timeOfDayRule_basic_st h r s st) = timeOfDayRule_basic h (episodesAt st r) s
   \<and> keeps st (snd (timeOfDayRule_basic_st h r s st))"
  by (simp add: timeOfDayRule_basic_st_def timeOfDayRule_basic_def inLastDays_st_eq Array_map_eq
      Array_sort_numbers_def numbersAt_def nth_append list_update_append Let_def)

lemma timeOfDayRule_ext_st_sound:
  "r < length st \<Longrightarrow>
   fst (timeOfDayRule_ext_st h r s st) = timeOfDayRule_ext h (episodesAt st r) s
   \<and> keeps st (snd (timeOfDayRule_ext_st h r s st))"
  by (simp add: timeOfDayRule_ext_st_def timeOfDayRule_ext_def inLastDays_st_eq Array_map_eq
      Array_sort_numbers_def numbersAt_def nth_append list_update_append Let_def)

lemma dayOfWeekRule_basic_st_sound:
  "r < length st \<Longrightarrow>
   fst (dayOfWeekRule_basic_st h r s st) = dayOfWeekRule_basic h (episodesAt st r) s
   \<and> keeps st (snd (dayOfWeekRule_basic_st h r s st))"
  by (simp add: dayOfWeekRule_basic_st_def dayOfWeekRule_basic_def inLastDays_st_eq)

lemma dayOfWeekRule_ext_st_sound:
  "r < length st \<Longrightarrow>
   fst (dayOfWeekRule_ext_st h r s st) = dayOfWeekRule_ext h (episodesAt st r) s
   \<and> keeps st (snd (dayOfWeekRule_ext_st h r s st))"
  by (simp add: dayOfWeekRule_ext_st_def dayOfWeekRule_ext_def inLastDays_st_eq)

lemma risingIntensityRule_basic_st_sound:
  "r < length st \<Longrightarrow>
   fst (risingIntensityRule_basic_st h r s st) = risingIntensityRule_basic h (episodesAt st r) s
   \<and> keeps st (snd (risingIntensityRule_basic_st h r s st))"
  apply (simp add: risingIntensityRule_basic_st_def risingIntensityRule_basic_def Array_filter_eq Let_def)
  apply (simp add: episodesAt_def nth_append)
  done

lemma risingIntensityRule_ext_st_sound:
  "r < length st \<Longrightarrow>
   fst (risingIntensityRule_ext_st h r s st) = risingIntensityRule_ext h (episodesAt st r) s
   \<and> keeps st (snd (risingIntensityRule_ext_st h r s st))"
  by (simp add: risingIntensityRule_ext_st_def risingIntensityRule_ext_def inLastDays_st_eq)

lemma medicationOveruseRule_basic_st_sound:
  "r < length st \<Longrightarrow>
   fst (medicationOveruseRule_basic_st h r s st) = medicationOveruseRule_basic h (episodesAt st r) s
   \<and> keeps st (snd (medicationOveruseRule_basic_st h r s st))"
  by (simp add: medicationOveruseRule_basic_st_def medicationOveruseRule_basic_def inLastDays_st_eq)

lemma medicationOveruseRule_ext_st_sound:
  "r < length st \<Longrightarrow>
   fst (medicationOveruseRule_ext_st h r s st) = medicationOveruseRule_ext h (episodesAt st r) s
   \<and> keeps st (snd (medicationOveruseRule_ext_st h r s st))"
  by (simp add: medicationOveruseRule_ext_st_def medicationOveruseRule_ext_def inLastDays_st_eq)

lemma averageIntensityByHourRule_st_sound:
  "r < length st \<Longrightarrow>
   fst (averageIntensityByHourRule_st h r s st) = averageIntensityByHourRule h (episodesAt st r) s
   \<and> keeps st (snd (averageIntensityByHourRule_st h r s st))"
  by (simp add: averageIntensityByHourRule_st_def averageIntensityByHourRule_def inLastDays_st_eq)

lemma averageIntensityByWeekdayRule_st_sound:
  "r < length st \<Longrightarrow>
   fst (averageIntensityByWeekdayRule_st h r s st) = averageIntensityByWeekdayRule h (episodesAt st r) s
   \<and> keeps st (snd (averageIntensityByWeekdayRule_st h r s st))"
  by (simp add: averageIntensityByWeekdayRule_st_def averageIntensityByWeekdayRule_def inLastDays_st_eq)

lemma streakRule_st_sound:
  "r < length st \<Longrightarrow>
   fst (streakRule_st r s st) = streakRule (episodesAt st r) s
   \<and> keeps st (snd (streakRule_st r s st))"
  by (simp add: streakRule_st_def streakRule_def Array_slice_eq Array_sort_episodes_def
      list_update_append Let_def)

lemma weeklyChangeRule_st_sound:
  "r < length st \<Longrightarrow>
   fst (weeklyChangeRule_st h r s st) = weeklyChangeRule h (episodesAt st r) s
   \<and> keeps st (snd (weeklyChangeRule_st h r s st))"
  apply (simp add: weeklyChangeRule_st_def weeklyChangeRule_def weeklyChangeRule_lastWeek_def
      weeklyChangeRule_prevWeek_def inLastDays_st_eq Array_filter_eq Let_def)
  apply (simp add: episodesAt_def nth_append)
  done

lemma chain_step:
  assumes r: "r < length st" and k: "keeps st0 st" and r0: "r < length st0"
    and E: "episodesAt st r = E"
    and sound: "fst (f s st) = g (episodesAt st r) s \<and> keeps st (snd (f s st))"
  shows "r < length (snd (f s st)) \<and> keeps st0 (snd (f s st))
         \<and> episodesAt (snd (f s st)) r = E \<and> fst (f s st) = g E s"
proof -
  from sound have ks: "keeps st (snd (f s st))" and res: "fst (f s st) = g (episodesAt st r) s"
    by simp_all
  have "r < length (snd (f s st))" using keeps_length [OF ks] r by simp
  moreover have "keeps st0 (snd (f s st))" using k ks by (rule keeps_trans)
  moreover have "episodesAt (snd (f s st)) r = E" using keeps_episodesAt [OF ks r] E by simp
  ultimately show ?thesis using res E by simp
qed

lemma analysePatterns_basic_st_sound:
  assumes r: "r < length st"
  shows "fst (analysePatterns_basic_st h r st) = analysePatterns_basic h (episodesAt st r)
         \<and> keeps st (snd (analysePatterns_basic_st h r st))"
proof (cases "length (episodesAt st r) = 0")
  case True
  then show ?thesis
    by (simp add: analysePatterns_basic_st_def analysePatterns_basic_def)
next
  case False
  let ?E = "episodesAt st r"
  define s1 st1 where "s1 = fst (topTriggersRule_basic_st h r [] st)"
    and "st1 = snd (topTriggersRule_basic_st h r [] st)"
  define s2 st2 where "s2 = fst (timeOfDayRule_basic_st h r s1 st1)"
    and "st2 = snd (timeOfDayRule_basic_st h r s1 st1)"
  define s3 st3 where "s3 = fst (dayOfWeekRule_basic_st h r s2 st2)"
    and "st3 = snd (dayOfWeekRule_basic_st h r s2 st2)"
  define s4 st4 where "s4 = fst (risingIntensityRule_basic_st h r s3 st3)"
    and "st4 = snd (risingIntensityRule_basic_st h r s3 st3)"
  define s5 st5 where "s5 = fst (medicationOveruseRule_basic_st h r s4 st4)"
    and "st5 = snd (medicationOveruseRule_basic_st h r s4 st4)"
  have c1: "r < length st1 \<and> keeps st st1 \<and> episodesAt st1 r = ?E \<and> s1 = topTriggersRule_basic h ?E []"
    unfolding s1_def st1_def
    using chain_step [where f = "topTriggersRule_basic_st h r" and g = "topTriggersRule_basic h" and r = r and st = st and ?st0.0 = st
        and s = "[]" and E = "?E"] r r keeps_refl [of st] topTriggersRule_basic_st_sound [of r st]
    by simp
  have c2: "r < length st2 \<and> keeps st st2 \<and> episodesAt st2 r = ?E \<and> s2 = timeOfDayRule_basic h ?E s1"
    unfolding s2_def st2_def
    using chain_step [where f = "timeOfDayRule_basic_st h r" and g = "timeOfDayRule_basic h" and r = r and st = st1 and ?st0.0 = st
        and s = "s1" and E = "?E"] r c1 timeOfDayRule_basic_st_sound [of r st1]
    by simp
  have c3: "r < length st3 \<and> keeps st st3 \<and> episodesAt st3 r = ?E \<and> s3 = dayOfWeekRule_basic h ?E s2"
    unfolding s3_def st3_def
    using chain_step [where f = "dayOfWeekRule_basic_st h r" and g = "dayOfWeekRule_basic h" and r = r and st = st2 and ?st0.0 = st
        and s = "s2" and E = "?E"] r c2 dayOfWeekRule_basic_st_sound [of r st2]
    by simp
  have c4: "r < length st4 \<and> keeps st st4 \<and> episodesAt st4 r = ?E \<and> s4 = risingIntensityRule_basic h ?E s3"
    unfolding s4_def st4_def
    using chain_step [where f = "risingIntensityRule_basic_st h r" and g = "risingIntensityRule_basic h" and r = r and st = st3 and ?st0.0 = st
        and s = "s3" and E = "?E"] r c3 risingIntensityRule_basic_st_sound [of r st3]
    by simp
  have c5: "r < length st5 \<and> keeps st st5 \<and> episodesAt st5 r = ?E \<and> s5 = medicationOveruseRule_basic h ?E s4"
    unfolding s5_def st5_def
    using chain_step [where f = "medicationOveruseRule_basic_st h r" and g = "medicationOveruseRule_basic h" and r = r and st = st4 and ?st0.0 = st
        and s = "s4" and E = "?E"] r c4 medicationOveruseRule_basic_st_sound [of r st4]
    by simp
  have run: "analysePatterns_basic_st h r st = (s5, st5)"
    using False
    unfolding analysePatterns_basic_st_def Let_def case_prod_beta
      s1_def st1_def s2_def st2_def s3_def st3_def s4_def st4_def s5_def st5_def
    by simp
  have pure: "analysePatterns_basic h ?E = s5"
    using False c1 c2 c3 c4 c5
    unfolding analysePatterns_basic_def Let_def by simp
  show ?thesis using run pure c5 by simp
qed

lemma analysePatterns_ext_st_sound:
  assumes r: "r < length st"
  shows "fst (analysePatterns_ext_st h r st) = analysePatterns_ext h (episodesAt st r)
         \<and> keeps st (snd (analysePatterns_ext_st h r st))"
proof (cases "length (episodesAt st r) = 0")
  case True
  then show ?thesis
    by (simp add: analysePatterns_ext_st_def analysePatterns_ext_def)
next
  case False
  let ?E = "episodesAt st r"
  define s1 st1 where "s1 = fst (topTriggersRule_ext_st h r [] st)"
    and "st1 = snd (topTriggersRule_ext_st h r [] st)"
  define s2 st2 where "s2 = fst (timeOfDayRule_ext_st h r s1 st1)"
    and "st2 = snd (timeOfDayRule_ext_st h r s1 st1)"
  define s3 st3 where "s3 = fst (dayOfWeekRule_ext_st h r s2 st2)"
    and "st3 = snd (dayOfWeekRule_ext_st h r s2 st2)"
  define s4 st4 where "s4 = fst (risingIntensityRule_ext_st h r s3 st3)"
    and "st4 = snd (risingIntensityRule_ext_st h r s3 st3)"
  define s5 st5 where "s5 = fst (medicationOveruseRule_ext_st h r s4 st4)"
    and "st5 = snd (medicationOveruseRule_ext_st h r s4 st4)"
  define s6 st6 where "s6 = fst (averageIntensityByHourRule_st h r s5 st5)"
    and "st6 = snd (averageIntensityByHourRule_st h r s5 st5)"
  define s7 st7 where "s7 = fst (averageIntensityByWeekdayRule_st h r s6 st6)"
    and "st7 = snd (averageIntensityByWeekdayRule_st h r s6 st6)"
  define s8 st8 where "s8 = fst (streakRule_st r s7 st7)"
    and "st8 = snd (streakRule_st r s7 st7)"
  define s9 st9 where "s9 = fst (weeklyChangeRule_st h r s8 st8)"
    and "st9 = snd (weeklyChangeRule_st h r s8 st8)"
  have c1: "r < length st1 \<and> keeps st st1 \<and> episodesAt st1 r = ?E \<and> s1 = topTriggersRule_ext h ?E []"
    unfolding s1_def st1_def
    using chain_step [where f = "topTriggersRule_ext_st h r" and g = "topTriggersRule_ext h" and r = r and st = st and ?st0.0 = st
        and s = "[]" and E = "?E"] r r keeps_refl [of st] topTriggersRule_ext_st_sound [of r st]
    by simp
  have c2: "r < length st2 \<and> keeps st st2 \<and> episodesAt st2 r = ?E \<and> s2 = timeOfDayRule_ext h ?E s1"
    unfolding s2_def st2_def
    using chain_step [where f = "timeOfDayRule_ext_st h r" and g = "timeOfDayRule_ext h" and r = r and st = st1 and ?st0.0 = st
        and s = "s1" and E = "?E"] r c1 timeOfDayRule_ext_st_sound [of r st1]
    by simp
  have c3: "r < length st3 \<and> keeps st st3 \<and> episodesAt st3 r = ?E \<and> s3 = dayOfWeekRule_ext h ?E s2"
    unfolding s3_def st3_def
    using chain_step [where f = "dayOfWeekRule_ext_st h r" and g = "dayOfWeekRule_ext h" and r = r and st = st2 and ?st0.0 = st
        and s = "s2" and E = "?E"] r c2 dayOfWeekRule_ext_st_sound [of r st2]
    by simp
  have c4: "r < length st4 \<and> keeps st st4 \<and> episodesAt st4 r = ?E \<and> s4 = risingIntensityRule_ext h ?E s3"
    unfolding s4_def st4_def
    using chain_step [where f = "risingIntensityRule_ext_st h r" and g = "risingIntensityRule_ext h" and r = r and st = st3 and ?st0.0 = st
        and s = "s3" and E = "?E"] r c3 risingIntensityRule_ext_st_sound [of r st3]
    by simp
  have c5: "r < length st5 \<and> keeps st st5 \<and> episodesAt st5 r = ?E \<and> s5 = medicationOveruseRule_ext h ?E s4"
    unfolding s5_def st5_def
    using chain_step [where f = "medicationOveruseRule_ext_st h r" and g = "medicationOveruseRule_ext h" and r = r and st = st4 and ?st0.0 = st
        and s = "s4" and E = "?E"] r c4 medicationOveruseRule_ext_st_sound [of r st4]
    by simp
  have c6: "r < length st6 \<and> keeps st st6 \<and> episodesAt st6 r = ?E \<and> s6 = averageIntensityByHourRule h ?E s5"
    unfolding s6_def st6_def
    using chain_step [where f = "averageIntensityByHourRule_st h r" and g = "averageIntensityByHourRule h" and r = r and st = st5 and ?st0.0 = st
        and s = "s5" and E = "?E"] r c5 averageIntensityByHourRule_st_sound [of r st5]
    by simp
  have c7: "r < length st7 \<and> keeps st st7 \<and> episodesAt st7 r = ?E \<and> s7 = averageIntensityByWeekdayRule h ?E s6"
    unfolding s7_def st7_def
    using chain_step [where f = "averageIntensityByWeekdayRule_st h r" and g = "averageIntensityByWeekdayRule h" and r = r and st = st6 and ?st0.0 = st
        and s = "s6" and E = "?E"] r c6 averageIntensityByWeekdayRule_st_sound [of r st6]
    by simp
  have c8: "r < length st8 \<and> keeps st st8 \<and> episodesAt st8 r = ?E \<and> s8 = streakRule ?E s7"
    unfolding s8_def st8_def
    using chain_step [where f = "streakRule_st r" and g = "streakRule" and r = r and st = st7 and ?st0.0 = st
        and s = "s7" and E = "?E"] r c7 streakRule_st_sound [of r st7]
    by simp
  have c9: "r < length st9 \<and> keeps st st9 \<and> episodesAt st9 r = ?E \<and> s9 = weeklyChangeRule h ?E s8"
    unfolding s9_def st9_def
    using chain_step [where f = "weeklyChangeRule_st h r" and g = "weeklyChangeRule h" and r = r and st = st8 and ?st0.0 = st
        and s = "s8" and E = "?E"] r c8 weeklyChangeRule_st_sound [of r st8]
    by simp
  have run: "analysePatterns_ext_st h r st = (s9, st9)"
    using False
    unfolding analysePatterns_ext_st_def Let_def case_prod_beta
      s1_def st1_def s2_def st2_def s3_def st3_def s4_def st4_def s5_def st5_def s6_def st6_def s7_def st7_def s8_def st8_def s9_def st9_def
    by simp
  have pure: "analysePatterns_ext h ?E = s9"
    using False c1 c2 c3 c4 c5 c6 c7 c8 c9
    unfolding analysePatterns_ext_def Let_def by simp
  show ?thesis using run pure c9 by simp
qed

section \<open>Lemmas: the streak of logged days\<close>

lemma set_foldl_Set_add: "set (foldl Set_add acc xs) = set acc \<union> set xs"
  by (induction xs arbitrary: acc) (auto simp: Set_add_def)

lemma distinct_foldl_Set_add: "distinct acc \<Longrightarrow> distinct (foldl Set_add acc xs)"
  by (induction xs arbitrary: acc) (auto simp: Set_add_def)

lemma set_newSet [simp]: "set (newSet xs) = set xs"
  by (simp add: newSet_def set_foldl_Set_add)

lemma distinct_newSet [simp]: "distinct (newSet xs)"
  by (simp add: newSet_def distinct_foldl_Set_add)

lemma length_newSet: "length (newSet xs) = card (set xs)"
  using distinct_card [OF distinct_newSet, of xs] by simp

lemma msPerDay_pos: "0 < msPerDay"
  by (simp add: msPerDay_def)

lemma parseDate_diff: "parseDate a - parseDate b = msPerDay \<longleftrightarrow> a - b = 1"
proof -
  have "parseDate a - parseDate b = (a - b) * msPerDay"
    by (simp add: parseDate_def algebra_simps)
  then show ?thesis using msPerDay_pos by auto
qed

lemma streakLoop_run:
  "sorted_wrt (>) (x # xs) \<Longrightarrow>
   s \<le> streakLoop (x # xs) s \<and>
   (\<forall>n. s + n \<le> streakLoop (x # xs) s \<longleftrightarrow> (\<forall>j \<le> n. x - int j \<in> set (x # xs)))"
proof (induction xs arbitrary: x s)
  case Nil
  show ?case
  proof (intro conjI allI)
    fix n show "s + n \<le> streakLoop [x] s \<longleftrightarrow> (\<forall>j \<le> n. x - int j \<in> set [x])"
    proof (cases n)
      case 0 then show ?thesis by simp
    next
      case (Suc m)
      then have "\<not> (\<forall>j \<le> n. x - int j \<in> set [x])"
        by (auto intro!: exI [of _ 1])
      with Suc show ?thesis by simp
    qed
  qed simp
next
  case (Cons y ys)
  from Cons.prems have yx: "y < x" and below: "\<forall>z \<in> set ys. z < y" and sy: "sorted_wrt (>) (y # ys)"
    by auto
  show ?case
  proof (cases "x - y = 1")
    case True
    then have L: "streakLoop (x # y # ys) s = streakLoop (y # ys) (s + 1)"
      by (simp add: parseDate_diff Let_def)
    note IH = Cons.IH [OF sy, of "s + 1"]
    show ?thesis
    proof (intro conjI allI)
      show "s \<le> streakLoop (x # y # ys) s" using IH L by simp
    next
      fix n
      show "s + n \<le> streakLoop (x # y # ys) s \<longleftrightarrow> (\<forall>j \<le> n. x - int j \<in> set (x # y # ys))"
      proof (cases n)
        case 0
        then show ?thesis using IH L by simp
      next
        case (Suc m)
        have "s + n \<le> streakLoop (x # y # ys) s \<longleftrightarrow> (s + 1) + m \<le> streakLoop (y # ys) (s + 1)"
          using L Suc by simp
        also have "\<dots> \<longleftrightarrow> (\<forall>j \<le> m. y - int j \<in> set (y # ys))"
          using IH by blast
        also have "\<dots> \<longleftrightarrow> (\<forall>j \<le> n. x - int j \<in> set (x # y # ys))"
        proof
          assume A: "\<forall>j \<le> m. y - int j \<in> set (y # ys)"
          show "\<forall>j \<le> n. x - int j \<in> set (x # y # ys)"
          proof (intro allI impI)
            fix j assume "j \<le> n"
            show "x - int j \<in> set (x # y # ys)"
            proof (cases j)
              case 0 then show ?thesis by simp
            next
              case (Suc k)
              with \<open>j \<le> n\<close> \<open>n = Suc m\<close> have "k \<le> m" by simp
              with A have "y - int k \<in> set (y # ys)" by blast
              moreover have "x - int j = y - int k" using True Suc by simp
              ultimately show ?thesis by simp
            qed
          qed
        next
          assume B: "\<forall>j \<le> n. x - int j \<in> set (x # y # ys)"
          show "\<forall>j \<le> m. y - int j \<in> set (y # ys)"
          proof (intro allI impI)
            fix j assume "j \<le> m"
            then have "Suc j \<le> n" using Suc by simp
            then have "x - int (Suc j) \<in> set (x # y # ys)" using B by blast
            moreover have "x - int (Suc j) = y - int j" using True by simp
            ultimately have "y - int j \<in> set (x # y # ys)" by (simp only:)
            moreover have "y - int j \<noteq> x" using yx by simp
            ultimately show "y - int j \<in> set (y # ys)" by auto
          qed
        qed
        finally show ?thesis .
      qed
    qed
  next
    case False
    then have L: "streakLoop (x # y # ys) s = s"
      by (simp add: parseDate_diff Let_def)
    have notin: "x - 1 \<notin> set (x # y # ys)"
      using yx below False by auto
    show ?thesis
    proof (intro conjI allI)
      show "s \<le> streakLoop (x # y # ys) s" using L by simp
    next
      fix n
      show "s + n \<le> streakLoop (x # y # ys) s \<longleftrightarrow> (\<forall>j \<le> n. x - int j \<in> set (x # y # ys))"
      proof (cases n)
        case 0 then show ?thesis using L by simp
      next
        case (Suc m)
        have "\<not> (\<forall>j \<le> n. x - int j \<in> set (x # y # ys))"
        proof
          assume "\<forall>j \<le> n. x - int j \<in> set (x # y # ys)"
          then have "x - int 1 \<in> set (x # y # ys)" using Suc by (metis One_nat_def Suc_le_mono le0)
          with notin show False by simp
        qed
        then show ?thesis using L Suc by simp
      qed
    qed
  qed
qed

lemma strictly_descending:
  "sorted_wrt (\<ge>) (l :: int list) \<Longrightarrow> distinct l \<Longrightarrow> sorted_wrt (>) l"
  by (induction l) (auto simp: less_le)

lemma sortDatesDesc_props:
  "set (sortDatesDesc xs) = set xs" "distinct xs \<Longrightarrow> sorted_wrt (>) (sortDatesDesc xs)"
proof -
  show "set (sortDatesDesc xs) = set xs" by (simp add: sortDatesDesc_def)
  assume d: "distinct xs"
  have s: "sorted (map (\<lambda>d. - parseDate d) (sortDatesDesc xs))"
    by (simp add: sortDatesDesc_def)
  have dd: "distinct (sortDatesDesc xs)" using d by (simp add: sortDatesDesc_def)
  have mono: "- parseDate a \<le> - parseDate b \<longleftrightarrow> b \<le> a" for a b
    using msPerDay_pos by (simp add: parseDate_def)
  from s have "sorted_wrt (\<lambda>a b. - parseDate a \<le> - parseDate b) (sortDatesDesc xs)"
    by (simp only: sorted_map)
  then have "sorted_wrt (\<ge>) (sortDatesDesc xs)"
    by (simp only: mono)
  with dd show "sorted_wrt (>) (sortDatesDesc xs)"
    by (rule strictly_descending [rotated])
qed

lemma computeStreak_iff:
  assumes "eps \<noteq> []"
  defines "S \<equiv> (\<lambda>ep. slice_0_10 (datetime ep)) ` set eps"
  shows "n \<le> computeStreak eps \<longleftrightarrow> (\<forall>j < n. Max S - int j \<in> S)"
proof -
  let ?ds = "sortDatesDesc (newSet (map (\<lambda>ep. slice_0_10 (datetime ep)) eps))"
  have setds: "set ?ds = S" by (simp add: sortDatesDesc_props S_def)
  have desc: "sorted_wrt (>) ?ds" by (simp add: sortDatesDesc_props)
  have "S \<noteq> {}" using assms by simp
  with setds obtain x xs where ds: "?ds = x # xs" by (cases ?ds) auto
  from desc ds have "\<forall>z \<in> set xs. z < x" by simp
  then have "Max (set (x # xs)) = x"
    by (intro Max_eqI) auto
  with setds ds have mx: "Max S = x" by simp
  have cs: "computeStreak eps = streakLoop (x # xs) 1"
    using assms(1) ds by (simp add: computeStreak_def Let_def)
  from streakLoop_run [of x xs 1] desc ds
  have run: "1 \<le> streakLoop (x # xs) 1"
    "\<And>m. 1 + m \<le> streakLoop (x # xs) 1 \<longleftrightarrow> (\<forall>j \<le> m. x - int j \<in> set (x # xs))"
    by auto
  show ?thesis
  proof (cases n)
    case 0 then show ?thesis by simp
  next
    case (Suc m)
    have "n \<le> computeStreak eps \<longleftrightarrow> 1 + m \<le> streakLoop (x # xs) 1" using cs Suc by simp
    also have "\<dots> \<longleftrightarrow> (\<forall>j \<le> m. x - int j \<in> set (x # xs))" by (rule run(2))
    also have "\<dots> \<longleftrightarrow> (\<forall>j < n. Max S - int j \<in> S)"
      using Suc mx setds ds by (simp add: less_Suc_eq_le)
    finally show ?thesis .
  qed
qed

lemma computeStreak_days_only:
  assumes "(\<lambda>ep. slice_0_10 (datetime ep)) ` set eps = (\<lambda>ep. slice_0_10 (datetime ep)) ` set eps'"
  shows "computeStreak eps = computeStreak eps'"
proof (cases "eps = []")
  case True
  with assms have "eps' = []" by auto
  with True show ?thesis by simp
next
  case False
  with assms have ne: "eps' \<noteq> []" by auto
  have "n \<le> computeStreak eps \<longleftrightarrow> n \<le> computeStreak eps'" for n
    using computeStreak_iff [OF False, of n] computeStreak_iff [OF ne, of n] assms by simp
  then show ?thesis by (meson le_refl order_antisym)
qed

lemma streakRule_sorted_days:
  "(\<lambda>ep. slice_0_10 (datetime ep)) ` set (sort_key (\<lambda>ep. - newDate (datetime ep)) episodes)
     = (\<lambda>ep. slice_0_10 (datetime ep)) ` set episodes"
  by simp

lemma streakRule_computeStreak:
  "computeStreak (sort_key (\<lambda>ep. - newDate (datetime ep)) episodes) = computeStreak episodes"
  by (rule computeStreak_days_only) simp

lemma weeklyChangeRule_keeps:
  "set suggestions \<subseteq> set (weeklyChangeRule h episodes suggestions)"
  by (auto simp: weeklyChangeRule_def weeklyChangeRule_on_def Let_def)

lemma streakRule_eq:
  "streakRule episodes suggestions =
     (if 3 \<le> computeStreak episodes then
        suggestions @ [\<lparr>title = ''Consistent tracking'',
          message = ''Great job! You've logged episodes for '' @ showNat (computeStreak episodes)
            @ '' consecutive days. Keeping track consistently helps identify patterns.''\<rparr>]
      else suggestions)"
  by (simp add: streakRule_def streakRule_on_def Let_def streakRule_computeStreak)

section \<open>Lemmas: the sweep of the time-of-day rule\<close>

lemma leftIdx_le: "i < length ms \<Longrightarrow> leftIdx ms i \<le> i"
proof (rule ccontr)
  assume i: "i < length ms" and "\<not> leftIdx ms i \<le> i"
  then have lt: "i < length (takeWhile (\<lambda>m. ms ! i - m > 240) ms)"
    by (simp add: leftIdx_def)
  then have "takeWhile (\<lambda>m. ms ! i - m > 240) ms ! i \<in> set (takeWhile (\<lambda>m. ms ! i - m > 240) ms)"
    by (rule nth_mem)
  then have "ms ! i - takeWhile (\<lambda>m. ms ! i - m > 240) ms ! i > 240"
    by (rule set_takeWhileD [THEN conjunct2])
  with lt show False by (simp add: takeWhile_nth)
qed

lemma before_leftIdx: "w < leftIdx ms i \<Longrightarrow> ms ! i - ms ! w > 240"
proof -
  assume lt: "w < leftIdx ms i"
  then have "takeWhile (\<lambda>m. ms ! i - m > 240) ms ! w \<in> set (takeWhile (\<lambda>m. ms ! i - m > 240) ms)"
    unfolding leftIdx_def by (rule nth_mem)
  then have "ms ! i - takeWhile (\<lambda>m. ms ! i - m > 240) ms ! w > 240"
    by (rule set_takeWhileD [THEN conjunct2])
  with lt show ?thesis by (simp add: takeWhile_nth leftIdx_def)
qed

lemma at_leftIdx: "i < length ms \<Longrightarrow> \<not> ms ! i - ms ! leftIdx ms i > 240"
proof -
  assume i: "i < length ms"
  then have "leftIdx ms i < length ms" using leftIdx_le [OF i] by simp
  then show ?thesis
    unfolding leftIdx_def by (rule nth_length_takeWhile)
qed

lemma shrinkWindow_leftIdx:
  "i < length ms \<Longrightarrow> w \<le> leftIdx ms i \<Longrightarrow> shrinkWindow ms i w = leftIdx ms i"
proof (induction ms i w rule: shrinkWindow.induct)
  case (1 minutes i w)
  show ?case
  proof (cases "w < leftIdx minutes i")
    case True
    then have gt: "minutes ! i - minutes ! w > 240" by (rule before_leftIdx)
    have wl: "w < length minutes" using True leftIdx_le [OF "1.prems"(1)] "1.prems"(1) by simp
    have "shrinkWindow minutes i w = shrinkWindow minutes i (w + 1)"
      using gt wl "1.prems"(1) by (subst shrinkWindow.simps) simp
    also have "\<dots> = leftIdx minutes i"
      using "1.IH" gt wl "1.prems"(1) True by simp
    finally show ?thesis .
  next
    case False
    with "1.prems" have eq: "w = leftIdx minutes i" by simp
    show ?thesis
      using at_leftIdx [OF "1.prems"(1)] eq by (subst shrinkWindow.simps) simp
  qed
qed

lemma takeWhile_length_mono:
  "(\<And>x. x \<in> set xs \<Longrightarrow> P x \<Longrightarrow> Q x) \<Longrightarrow> length (takeWhile P xs) \<le> length (takeWhile Q xs)"
  by (induction xs) auto

lemma leftIdx_mono:
  assumes "sorted ms" "i \<le> j" "j < length ms"
  shows "leftIdx ms i \<le> leftIdx ms j"
proof -
  have "ms ! i \<le> ms ! j" using assms by (simp add: sorted_nth_mono)
  then show ?thesis
    unfolding leftIdx_def by (intro takeWhile_length_mono) simp
qed

lemma takeWhile_take: "takeWhile P (take k xs) = take k (takeWhile P xs)"
proof (induction xs arbitrary: k)
  case Nil then show ?case by simp
next
  case (Cons x xs) then show ?case by (cases k) auto
qed

lemma sorted_filter_dropWhile:
  "sorted xs \<Longrightarrow> filter (\<lambda>m. c - m \<le> (240::int)) xs = dropWhile (\<lambda>m. c - m > 240) xs"
proof (induction xs)
  case Nil then show ?case by simp
next
  case (Cons x xs)
  show ?case
  proof (cases "c - x > 240")
    case True with Cons show ?thesis by simp
  next
    case False
    with Cons.prems have "\<forall>y \<in> set (x # xs). c - y \<le> 240" by auto
    then have "filter (\<lambda>m. c - m \<le> 240) (x # xs) = x # xs"
      by (simp only: filter_True)
    with False show ?thesis by simp
  qed
qed

lemma spec_windowCount_leftIdx:
  assumes "sorted ms" "i < length ms"
  shows "spec_windowCount ms i = int i - int (leftIdx ms i) + 1"
proof -
  let ?P = "\<lambda>m. ms ! i - m > 240"
  have s: "sorted (take (Suc i) ms)" using assms(1) by simp
  have "length (filter (\<lambda>m. ms ! i - m \<le> 240) (take (Suc i) ms))
      = length (dropWhile ?P (take (Suc i) ms))"
    using sorted_filter_dropWhile [OF s] by simp
  also have "\<dots> = length (take (Suc i) ms) - length (takeWhile ?P (take (Suc i) ms))"
    by (metis add_diff_cancel_left' length_append takeWhile_dropWhile_id)
  also have "\<dots> = Suc i - leftIdx ms i"
    using assms(2) leftIdx_le [OF assms(2)] by (simp add: takeWhile_take leftIdx_def)
  finally show ?thesis
    using leftIdx_le [OF assms(2)] by (simp add: spec_windowCount_def)
qed

lemma spec_windowCount_pos:
  assumes "sorted ms" "i < length ms"
  shows "1 \<le> spec_windowCount ms i"
  using leftIdx_le [OF assms(2)] by (simp add: spec_windowCount_leftIdx [OF assms])

lemma sweep_invariant:
  "sorted ms \<Longrightarrow> i \<le> length ms \<Longrightarrow> (i < length ms \<Longrightarrow> w \<le> leftIdx ms i) \<Longrightarrow> sweepInv ms i mc wst \<Longrightarrow>
   sweepInv ms (length ms) (fst (sweep ms i w mc wst)) (snd (sweep ms i w mc wst))"
proof (induction ms i w mc wst rule: sweep.induct)
  case (1 minutes i w mc wst)
  show ?case
  proof (cases "i < length minutes")
    case False
    with "1.prems" have "i = length minutes" by simp
    with "1.prems"(4) False show ?thesis by (subst (1 2) sweep.simps) simp
  next
    case True
    let ?w = "leftIdx minutes i"
    let ?c = "int i - int ?w + 1"
    have sw: "shrinkWindow minutes i w = ?w"
      using True "1.prems"(3) by (simp add: shrinkWindow_leftIdx)
    have c: "spec_windowCount minutes i = ?c"
      using "1.prems"(1) True by (rule spec_windowCount_leftIdx)
    have cpos: "1 \<le> ?c" using spec_windowCount_pos [OF "1.prems"(1) True] c by simp
    have next_w: "Suc i < length minutes \<Longrightarrow> ?w \<le> leftIdx minutes (Suc i)"
      using "1.prems"(1) by (intro leftIdx_mono) simp_all
    from "1.prems"(4) have below: "\<forall>k < i. spec_windowCount minutes k \<le> mc"
      and wit: "mc = 0 \<or> (\<exists>k < i. spec_windowCount minutes k = mc
            \<and> (\<forall>k' < k. spec_windowCount minutes k' < mc) \<and> wst = minutes ! leftIdx minutes k)"
      by (simp_all add: sweepInv_def)
    show ?thesis
    proof (cases "?c > mc")
      case gt: True
      have step: "sweep minutes i w mc wst = sweep minutes (i + 1) ?w ?c (minutes ! ?w)"
        using True gt sw by (subst sweep.simps) (simp add: Let_def)
      have inv': "sweepInv minutes (i + 1) ?c (minutes ! ?w)"
        unfolding sweepInv_def
      proof (intro conjI)
        show "\<forall>k < i + 1. spec_windowCount minutes k \<le> ?c"
          using below gt c by (auto simp: less_Suc_eq)
        have "spec_windowCount minutes i = ?c \<and> (\<forall>k' < i. spec_windowCount minutes k' < ?c)
              \<and> minutes ! ?w = minutes ! leftIdx minutes i"
          using below gt c by auto
        then show "?c = 0 \<or> (\<exists>k < i + 1. spec_windowCount minutes k = ?c
              \<and> (\<forall>k' < k. spec_windowCount minutes k' < ?c) \<and> minutes ! ?w = minutes ! leftIdx minutes k)"
          by (intro disjI2 exI [of _ i]) simp
      qed
      have "sweepInv minutes (length minutes) (fst (sweep minutes (i + 1) ?w ?c (minutes ! ?w)))
              (snd (sweep minutes (i + 1) ?w ?c (minutes ! ?w)))"
        using "1.IH"(1) [OF True sw [symmetric] refl gt "1.prems"(1)] True next_w inv' by simp
      with step show ?thesis by simp
    next
      case le: False
      have step: "sweep minutes i w mc wst = sweep minutes (i + 1) ?w mc wst"
        using True le sw by (subst sweep.simps) (simp add: Let_def)
      have mc0: "mc \<noteq> 0" using le cpos by simp
      have inv': "sweepInv minutes (i + 1) mc wst"
        unfolding sweepInv_def
      proof (intro conjI)
        show "\<forall>k < i + 1. spec_windowCount minutes k \<le> mc"
          using below le c by (auto simp: less_Suc_eq)
        from wit mc0 obtain k where "k < i" "spec_windowCount minutes k = mc"
          "\<forall>k' < k. spec_windowCount minutes k' < mc" "wst = minutes ! leftIdx minutes k"
          by blast
        then show "mc = 0 \<or> (\<exists>k < i + 1. spec_windowCount minutes k = mc
              \<and> (\<forall>k' < k. spec_windowCount minutes k' < mc) \<and> wst = minutes ! leftIdx minutes k)"
          by (intro disjI2 exI [of _ k]) simp
      qed
      have "sweepInv minutes (length minutes) (fst (sweep minutes (i + 1) ?w mc wst))
              (snd (sweep minutes (i + 1) ?w mc wst))"
        using "1.IH"(2) [OF True sw [symmetric] refl le "1.prems"(1)] True next_w inv' by simp
      with step show ?thesis by simp
    qed
  qed
qed

lemma sweep_spec:
  assumes "sorted ms" "ms \<noteq> []"
  shows "fst (sweep ms 0 0 0 0) = spec_maxWindowCount ms"
    and "\<exists>k < length ms. spec_windowCount ms k = spec_maxWindowCount ms
           \<and> (\<forall>k' < k. spec_windowCount ms k' < spec_maxWindowCount ms)
           \<and> snd (sweep ms 0 0 0 0) = ms ! (Suc k - nat (spec_maxWindowCount ms))"
proof -
  let ?mc = "fst (sweep ms 0 0 0 0)" and ?wst = "snd (sweep ms 0 0 0 0)"
  have "sweepInv ms 0 0 0" by (simp add: sweepInv_def)
  with assms(1) have inv: "sweepInv ms (length ms) ?mc ?wst"
    by (intro sweep_invariant) simp_all
  then have below: "\<forall>k < length ms. spec_windowCount ms k \<le> ?mc"
    by (simp add: sweepInv_def)
  have "0 < length ms" using assms(2) by simp
  with below have "spec_windowCount ms 0 \<le> ?mc" by blast
  moreover have "1 \<le> spec_windowCount ms 0"
    using assms by (intro spec_windowCount_pos) simp_all
  ultimately have "?mc \<noteq> 0" by simp
  with inv obtain k where k: "k < length ms" "spec_windowCount ms k = ?mc"
    "\<forall>k' < k. spec_windowCount ms k' < ?mc" "?wst = ms ! leftIdx ms k"
    by (auto simp: sweepInv_def)
  have "Max (spec_windowCount ms ` {..<length ms}) = ?mc"
  proof (rule Max_eqI)
    show "finite (spec_windowCount ms ` {..<length ms})" by simp
    show "y \<le> ?mc" if "y \<in> spec_windowCount ms ` {..<length ms}" for y
      using that below by auto
    show "?mc \<in> spec_windowCount ms ` {..<length ms}"
      using k(1,2) by (metis imageI lessThan_iff)
  qed
  then show mx: "?mc = spec_maxWindowCount ms" by (simp add: spec_maxWindowCount_def)
  have "int k - int (leftIdx ms k) + 1 = ?mc"
    using spec_windowCount_leftIdx [OF assms(1) k(1)] k(2) by simp
  then have "leftIdx ms k = Suc k - nat ?mc"
    using leftIdx_le [OF k(1)] by simp
  with k mx show "\<exists>k < length ms. spec_windowCount ms k = spec_maxWindowCount ms
           \<and> (\<forall>k' < k. spec_windowCount ms k' < spec_maxWindowCount ms)
           \<and> snd (sweep ms 0 0 0 0) = ms ! (Suc k - nat (spec_maxWindowCount ms))"
    by (intro exI [of _ k]) simp
qed

lemma minuteOfDay_range: "0 \<le> minuteOfDay h ep \<and> minuteOfDay h ep < 1440"
proof -
  have "0 \<le> getHours h t \<and> getHours h t < 24" "0 \<le> getMinutes h t \<and> getMinutes h t < 60" for t
    by (simp_all add: getHours_def getMinutes_def)
  from this [of "newDate (datetime ep)"] show ?thesis
    by (simp add: minuteOfDay_def Let_def)
qed

section \<open>Lemmas: the dictionary of trigger counts\<close>











section \<open>The window helper\<close>

text \<open>
  Claim C1, as the code has it.  The cutoff of \<open>inLastDays\<close> is the instant with the local
  clock time of \<open>now\<close>, \<open>days\<close> calendar days earlier; where the zone has the same offset at
  both ends this is \<open>now\<close> less \<open>days\<close> times 24 hours.  \<open>inLastDays\<close> keeps, in their order,
  exactly the episodes dated at or after the cutoff.  There is no upper bound: an episode
  dated after \<open>now\<close> is kept as well.
\<close>

theorem inLastDays_lower_bound_only:
  "inLastDays h episodes days = filter (\<lambda>ep. cutoffDate h days \<le> newDate (datetime ep)) episodes
   \<and> subseq (inLastDays h episodes days) episodes
   \<and> (\<forall>ep \<in> set episodes. ep \<in> set (inLastDays h episodes days) \<longleftrightarrow> cutoffDate h days \<le> newDate (datetime ep))
   \<and> (\<forall>ep \<in> set episodes. cutoffDate h days \<le> now h \<and> now h < newDate (datetime ep)
         \<longrightarrow> ep \<in> set (inLastDays h episodes days))
   \<and> (localTZA h (LocalTime h (now h) - days * msPerDay) False = localTZA h (now h) True
         \<longrightarrow> cutoffDate h days = now h - days * msPerDay)"
  by (auto simp: inLastDays_def cutoffDate_def LocalTime_def UTC_def Let_def)

text \<open>
  In New York at 2023-11-10T12:00Z, 07:00 local time, the cutoff of the 30-day window is
  07:00 local time on 11 October, which was 11:00Z: the clocks were set back in between,
  and the cutoff is an hour less than 30 times 24 hours before \<open>now\<close>.  An episode of
  2023-10-11T11:30Z is kept, and so is one dated the day after \<open>now\<close>; one of 10:30Z is not.
  In UTC the cutoff of the 30-day window is 30 times 24 hours before \<open>now\<close>.
\<close>

theorem inLastDays_lower_bound_only_witness:
  "inLastDays hostAutumn [episodeAtTime 19641 11 30, episodeAtTime 19672 12 0, episodeAtTime 19641 10 30] 30
     = [episodeAtTime 19641 11 30, episodeAtTime 19672 12 0]
   \<and> cutoffDate hostAutumn 30 = 19641 * msPerDay + 11 * 3600000
   \<and> cutoffDate hostAutumn 30 \<le> now hostAutumn
   \<and> now hostAutumn < newDate (datetime (episodeAtTime 19672 12 0))
   \<and> localTZA host0 (LocalTime host0 (now host0) - 30 * msPerDay) False = localTZA host0 (now host0) True
   \<and> cutoffDate host0 30 = now host0 - 30 * msPerDay"
  using inLastDays_lower_bound_only [of hostAutumn "[episodeAtTime 19641 11 30, episodeAtTime 19672 12 0, episodeAtTime 19641 10 30]" 30]
    inLastDays_lower_bound_only [of host0 "[]" 30]
  by (simp add: hostAutumn_def host0_def hostAt_def newYork2023_def fixedZone_def episodeAtTime_def episodeAt_def
      newDate_def noon_def msPerDay_def cutoffDate_def LocalTime_def UTC_def)

text \<open>
  Claim C1, as the specification words it, fails: an episode dated one day after \<open>now\<close>
  is in the 30-day window.
\<close>

theorem inLastDays_future_counterexample:
  "episodeAt (noon 19524) \<in> set (inLastDays host0 [episodeAt (noon 19524)] 30)
   \<and> now host0 < newDate (datetime (episodeAt (noon 19524)))"
  by (simp add: inLastDays_def cutoffDate_def LocalTime_def UTC_def host0_def hostAt_def fixedZone_def
      episodeAt_def newDate_def noon_def msPerDay_def)

section \<open>Weekly frequency change\<close>

text \<open>
  Claim C8, as the code has it.  Let \<open>lastCount\<close> be the number of episodes dated at or
  after the seven-day cutoff, those dated after \<open>now\<close> among them, and \<open>prevCount\<close> the
  number dated at or after the fourteen-day cutoff and before the seven-day cutoff.  The
  rule adds nothing when \<open>prevCount\<close> is zero or the counts are equal, exactly one finding
  ``Increased frequency'' when \<open>lastCount > prevCount > 0\<close>, exactly one finding ``Decreased
  frequency'' when \<open>lastCount < prevCount\<close>; each message carries both counts.
\<close>

theorem weeklyChangeRule_cases:
  fixes h :: host and episodes :: "episode list"
  defines "lastCount \<equiv> length (filter (\<lambda>ep. cutoffDate h 7 \<le> newDate (datetime ep)) episodes)"
  defines "prevCount \<equiv> length (filter (\<lambda>ep. cutoffDate h 14 \<le> newDate (datetime ep)
                                          \<and> newDate (datetime ep) < cutoffDate h 7) episodes)"
  shows "weeklyChangeRule h episodes suggestions =
     (if prevCount = 0 then suggestions
      else if lastCount > prevCount then
        suggestions @ [\<lparr>title = ''Increased frequency'',
          message = ''You logged '' @ showNat lastCount @ '' episodes in the last week, up from ''
            @ showNat prevCount @ '' the week before. Watch for triggers and consider adjustments.''\<rparr>]
      else if lastCount < prevCount then
        suggestions @ [\<lparr>title = ''Decreased frequency'',
          message = ''Nice progress! You've logged fewer episodes this week ('' @ showNat lastCount
            @ '') than the previous week ('' @ showNat prevCount @ ''). Keep it up!''\<rparr>]
      else suggestions)"
  unfolding lastCount_def prevCount_def
  by (simp add: weeklyChangeRule_def weeklyChangeRule_on_def weeklyChangeRule_lastWeek_def weeklyChangeRule_prevWeek_def
      inLastDays_def Let_def)

text \<open>Five episodes against three, three against five, two against two, two against none.\<close>

theorem weeklyChangeRule_cases_witness:
  "weeklyChangeRule host0 (episodesOn [19523, 19522, 19521, 19520, 19519, 19515, 19514, 19513]) [] =
     [\<lparr>title = ''Increased frequency'',
       message = ''You logged 5 episodes in the last week, up from 3 the week before. Watch for triggers and consider adjustments.''\<rparr>]
   \<and> weeklyChangeRule host0 (episodesOn [19523, 19522, 19521, 19515, 19514, 19513, 19512, 19511]) [] =
     [\<lparr>title = ''Decreased frequency'',
       message = ''Nice progress! You've logged fewer episodes this week (3) than the previous week (5). Keep it up!''\<rparr>]
   \<and> weeklyChangeRule host0 (episodesOn [19523, 19522, 19515, 19514]) [] = []
   \<and> weeklyChangeRule host0 (episodesOn [19523, 19522]) [] = []"
  using weeklyChangeRule_cases [of host0 "episodesOn [19523, 19522, 19521, 19520, 19519, 19515, 19514, 19513]" "[]"]
    weeklyChangeRule_cases [of host0 "episodesOn [19523, 19522, 19521, 19515, 19514, 19513, 19512, 19511]" "[]"]
    weeklyChangeRule_cases [of host0 "episodesOn [19523, 19522, 19515, 19514]" "[]"]
    weeklyChangeRule_cases [of host0 "episodesOn [19523, 19522]" "[]"]
  by (simp add: episodesOn_def host0_def hostAt_def fixedZone_def episodeAt_def newDate_def noon_def msPerDay_def
      cutoffDate_def LocalTime_def UTC_def showNat.simps digitChar_def)

text \<open>
  Claim C8, as the specification words it, fails.  Of eight episodes, five are dated in
  the five days after \<open>now\<close> and three in the week before the last: none lies in the last
  seven days, fewer than the three of the prior week, and the finding is ``Increased
  frequency'' with the count 5.
\<close>

theorem weeklyChangeRule_future_counterexample:
  "weeklyChangeRule host0 (episodesOn [19524, 19525, 19526, 19527, 19528] @ episodesOn [19515, 19514, 19513]) [] =
     [\<lparr>title = ''Increased frequency'',
       message = ''You logged 5 episodes in the last week, up from 3 the week before. Watch for triggers and consider adjustments.''\<rparr>]
   \<and> now host0 < Min (set (instants (episodesOn [19524, 19525, 19526, 19527, 19528])))
   \<and> Max (set (instants (episodesOn [19515, 19514, 19513]))) < now host0 - 7 * msPerDay
   \<and> now host0 - 14 * msPerDay \<le> Min (set (instants (episodesOn [19515, 19514, 19513])))"
  by (simp add: weeklyChangeRule_def weeklyChangeRule_on_def weeklyChangeRule_lastWeek_def weeklyChangeRule_prevWeek_def
      inLastDays_def Let_def instants_def
      episodesOn_def host0_def hostAt_def fixedZone_def episodeAt_def newDate_def noon_def msPerDay_def
      cutoffDate_def LocalTime_def UTC_def showNat.simps digitChar_def)

text \<open>
  Claim C9, as the code has it.  The two windows of the rule are disjoint.  An episode
  dated exactly at the seven-day cutoff, the instant with the local clock time of \<open>now\<close>
  seven calendar days earlier, is in the last-week window only.  Where the zone has the same
  offset at both ends, that cutoff is \<open>now\<close> less 7 times 24 hours.  Where the fourteen-day
  cutoff is not after the seven-day cutoff, the two windows together hold the episodes
  dated at or after the fourteen-day cutoff, each counted once.
\<close>

theorem weekly_windows_disjoint:
  "(\<forall>ep. \<not> (ep \<in> set (weeklyChangeRule_lastWeek h episodes) \<and> ep \<in> set (weeklyChangeRule_prevWeek h episodes)))
   \<and> (\<forall>ep \<in> set episodes. newDate (datetime ep) = cutoffDate h 7 \<longrightarrow>
         ep \<in> set (weeklyChangeRule_lastWeek h episodes) \<and> ep \<notin> set (weeklyChangeRule_prevWeek h episodes))
   \<and> (localTZA h (LocalTime h (now h) - 7 * msPerDay) False = localTZA h (now h) True
         \<longrightarrow> cutoffDate h 7 = now h - 7 * msPerDay)
   \<and> (cutoffDate h 14 \<le> cutoffDate h 7 \<longrightarrow>
         length (weeklyChangeRule_lastWeek h episodes) + length (weeklyChangeRule_prevWeek h episodes)
           = length (filter (\<lambda>ep. cutoffDate h 14 \<le> newDate (datetime ep)) episodes))"
proof -
  have count: "length (filter (\<lambda>ep. c7 \<le> newDate (datetime ep)) episodes)
        + length (filter (\<lambda>ep. c14 \<le> newDate (datetime ep) \<and> newDate (datetime ep) < c7) episodes)
      = length (filter (\<lambda>ep. c14 \<le> newDate (datetime ep)) episodes)" if "c14 \<le> c7" for c7 c14 :: int
    using that by (induction episodes) auto
  have tz: "localTZA h (LocalTime h (now h) - 7 * msPerDay) False = localTZA h (now h) True
      \<Longrightarrow> cutoffDate h 7 = now h - 7 * msPerDay"
    by (simp add: cutoffDate_def LocalTime_def UTC_def Let_def)
  show ?thesis
    using count [of "cutoffDate h 14" "cutoffDate h 7"] tz
    by (auto simp: weeklyChangeRule_lastWeek_def weeklyChangeRule_prevWeek_def inLastDays_def Let_def)
qed

text \<open>
  In UTC at noon of day 19523, an episode of noon of day 19516 is at the seven-day cutoff,
  which is \<open>now\<close> less 7 times 24 hours, and is counted in the last week only; the three
  episodes since the fourteen-day cutoff are counted once each.
\<close>

theorem weekly_windows_disjoint_witness:
  "episodeAt (noon 19516) \<in> set (episodesOn [19523, 19516, 19515])
   \<and> newDate (datetime (episodeAt (noon 19516))) = cutoffDate host0 7
   \<and> episodeAt (noon 19516) \<in> set (weeklyChangeRule_lastWeek host0 (episodesOn [19523, 19516, 19515]))
   \<and> episodeAt (noon 19516) \<notin> set (weeklyChangeRule_prevWeek host0 (episodesOn [19523, 19516, 19515]))
   \<and> localTZA host0 (LocalTime host0 (now host0) - 7 * msPerDay) False = localTZA host0 (now host0) True
   \<and> cutoffDate host0 7 = now host0 - 7 * msPerDay
   \<and> cutoffDate host0 14 \<le> cutoffDate host0 7
   \<and> length (weeklyChangeRule_lastWeek host0 (episodesOn [19523, 19516, 19515]))
       + length (weeklyChangeRule_prevWeek host0 (episodesOn [19523, 19516, 19515])) = 3"
  using weekly_windows_disjoint [of host0 "episodesOn [19523, 19516, 19515]"]
  by (simp add: episodesOn_def host0_def hostAt_def fixedZone_def episodeAt_def newDate_def noon_def msPerDay_def
      cutoffDate_def LocalTime_def UTC_def)

text \<open>
  Claim C9, as the specification words it, fails where the clocks changed inside the
  week.  In New York at 2023-03-15T16:00Z, noon local time, the seven-day cutoff is noon
  local time on 8 March, which was 17:00Z.  An episode dated 7 times 24 hours before \<open>now\<close>,
  at 16:00Z on 8 March, is before the cutoff: it is counted in the prior week and not in
  the last week.
\<close>

theorem weekly_windows_clock_change_counterexample:
  "newDate (datetime (episodeAtTime 19424 16 0)) = now hostSpring - 7 * msPerDay
   \<and> episodeAtTime 19424 16 0 \<notin> set (weeklyChangeRule_lastWeek hostSpring [episodeAtTime 19424 16 0])
   \<and> episodeAtTime 19424 16 0 \<in> set (weeklyChangeRule_prevWeek hostSpring [episodeAtTime 19424 16 0])
   \<and> cutoffDate hostSpring 7 = 19424 * msPerDay + 17 * 3600000"
  by (simp add: weeklyChangeRule_lastWeek_def weeklyChangeRule_prevWeek_def inLastDays_def Let_def
      hostSpring_def hostAt_def newYork2023_def episodeAtTime_def episodeAt_def newDate_def msPerDay_def
      cutoffDate_def LocalTime_def UTC_def)

section \<open>Rising intensity\<close>

text \<open>
  Claim C2, as the code has it.  All averages are computed in doubles: a sum of
  intensities added from left to right, divided by the number of episodes.

  Extended version: take a 42-day window whose week numbers do not fall as time goes on
  (as in a window that lies within one calendar year) and that holds at least six week
  numbers.  The rule adds its finding if and only if \<open>prev3 > 0\<close> and \<open>last3 \<ge> prev3 * 1.2\<close>,
  where \<open>last3\<close> is the average of the weekly averages of the three latest weeks and \<open>prev3\<close>
  that of the three weeks before them; the message is a fixed text without the averages.

  Basic version: when the older and the newer half of the window, split at the 21-day
  cutoff, are both non-empty and every episode has an intensity, the rule adds its finding
  if and only if the average of the newer half is at least the average of the older half
  times 1.2, and the message contains both averages written by \<open>toFixed1\<close>.

  \<open>toFixed1\<close> writes a non-negative number with exactly one decimal, at most 0.05 off.
\<close>

theorem risingIntensityRule_variants:
  fixes h :: host and episodes :: "episode list"
  defines "sixWeeks \<equiv> inLastDays h episodes 42"
  defines "weeks \<equiv> spec_weeks h sixWeeks"
  defines "n \<equiv> length weeks"
  defines "last3 \<equiv> average3 (map (spec_weekMean h sixWeeks) (drop (n - 3) weeks))"
  defines "prev3 \<equiv> average3 (map (spec_weekMean h sixWeeks) (take 3 (drop (n - 6) weeks)))"
  defines "older \<equiv> filter (\<lambda>ep. newDate (datetime ep) < cutoffDate h 21) sixWeeks"
  defines "newer \<equiv> filter (\<lambda>ep. cutoffDate h 21 \<le> newDate (datetime ep)) sixWeeks"
  shows "(sorted (map (weekKey h) (sort_key (\<lambda>ep. newDate (datetime ep)) sixWeeks)) \<and> 6 \<le> n \<longrightarrow>
            risingIntensityRule_ext h episodes suggestions =
              (if prev3 > 0 \<and> last3 \<ge> dmul prev3 (double 1.2) then
                 suggestions @ [\<lparr>title = ''Rising intensity trend'',
                   message = ''Your 3'' @ nbhyphen
                     @ ''week average intensity has risen by over 20%. Consider consulting a healthcare provider or reviewing possible triggers.''\<rparr>]
               else suggestions))
       \<and> (older \<noteq> [] \<and> newer \<noteq> [] \<and> (\<forall>ep \<in> set sixWeeks. intensity ep \<noteq> None) \<longrightarrow>
            risingIntensityRule_basic h episodes suggestions =
              (if spec_mean newer \<ge> dmul (spec_mean older) (double 1.2) then
                 suggestions @ [\<lparr>title = ''Rising intensity'',
                   message = ''Your average migraine intensity over the last three weeks (''
                     @ toFixed1 (spec_mean newer) @ '') is noticeably higher than the preceding three weeks (''
                     @ toFixed1 (spec_mean older)
                     @ ''). It may be worth discussing this with a healthcare professional.''\<rparr>]
               else suggestions))
       \<and> (\<forall>x \<ge> 0. \<exists>m. toFixed1 x = showInt (m div 10) @ ''.'' @ showInt (m mod 10)
                      \<and> 0 \<le> m mod 10 \<and> m mod 10 < 10 \<and> \<bar>x - of_int m / 10\<bar> \<le> 1 / 20)"
proof (intro conjI impI)
  assume gate: "sorted (map (weekKey h) (sort_key (\<lambda>ep. newDate (datetime ep)) sixWeeks)) \<and> 6 \<le> n"
  show "risingIntensityRule_ext h episodes suggestions =
      (if prev3 > 0 \<and> last3 \<ge> dmul prev3 (double 1.2) then
         suggestions @ [\<lparr>title = ''Rising intensity trend'',
           message = ''Your 3'' @ nbhyphen
             @ ''week average intensity has risen by over 20%. Consider consulting a healthcare provider or reviewing possible triggers.''\<rparr>]
       else suggestions)"
    using gate risingIntensityRule_ext_spec [of h episodes suggestions]
    unfolding n_def weeks_def sixWeeks_def last3_def prev3_def by simp
next
  assume a: "older \<noteq> [] \<and> newer \<noteq> [] \<and> (\<forall>ep \<in> set sixWeeks. intensity ep \<noteq> None)"
  have recent: "filter (\<lambda>ep. newDate (datetime ep) \<ge> cutoffDate h 42) episodes = sixWeeks"
    by (simp add: sixWeeks_def inLastDays_def)
  have o: "filter (\<lambda>ep. newDate (datetime ep) < cutoffDate h 21) sixWeeks = older"
    and nw: "filter (\<lambda>ep. newDate (datetime ep) \<ge> cutoffDate h 21) sixWeeks = newer"
    by (simp_all add: older_def newer_def)
  have "length older + length newer \<le> length sixWeeks"
    unfolding older_def newer_def by (induction sixWeeks) auto
  moreover have "1 \<le> length older" "1 \<le> length newer" using a by (simp_all add: Suc_le_eq)
  ultimately have two: "\<not> length sixWeeks < 2" by linarith
  have avg1: "average_basic older = Some (spec_mean older)"
    using a by (intro average_basic_present) (auto simp: older_def)
  have avg2: "average_basic newer = Some (spec_mean newer)"
    using a by (intro average_basic_present) (auto simp: newer_def)
  show "risingIntensityRule_basic h episodes suggestions =
      (if spec_mean newer \<ge> dmul (spec_mean older) (double 1.2) then
         suggestions @ [\<lparr>title = ''Rising intensity'',
           message = ''Your average migraine intensity over the last three weeks (''
             @ toFixed1 (spec_mean newer) @ '') is noticeably higher than the preceding three weeks (''
             @ toFixed1 (spec_mean older)
             @ ''). It may be worth discussing this with a healthcare professional.''\<rparr>]
       else suggestions)"
    using two a
    unfolding risingIntensityRule_basic_def risingIntensityRule_basic_on_def Let_def recent o nw avg1 avg2
    by (simp add: num_ge_def num_mul_def num_toFixed1_def)
next
  show "\<forall>x \<ge> 0. \<exists>m. toFixed1 x = showInt (m div 10) @ ''.'' @ showInt (m mod 10)
                      \<and> 0 \<le> m mod 10 \<and> m mod 10 < 10 \<and> \<bar>x - of_int m / 10\<bar> \<le> 1 / 20"
    using toFixed1_one_decimal by blast
qed

text \<open>
  The first sample: averages 2 and 5 in the two halves; six week numbers, rising with
  time, with the weekly averages 2, 2, 2, 5, 5, 5.  Both versions fire; the basic one writes
  5.0 and 2.0.  The second sample: averages 7/3 and 14/5; in doubles the product of the
  first with 1.2 lies above the second, and the basic version adds nothing.
\<close>

theorem risingIntensityRule_variants_witness:
  "sorted (map (weekKey host0) (sort_key (\<lambda>ep. newDate (datetime ep)) (inLastDays host0 risingSample 42)))
   \<and> 6 \<le> length (spec_weeks host0 (inLastDays host0 risingSample 42))
   \<and> spec_mean (filter (\<lambda>ep. newDate (datetime ep) < cutoffDate host0 21) (inLastDays host0 risingSample 42)) = 2
   \<and> spec_mean (filter (\<lambda>ep. cutoffDate host0 21 \<le> newDate (datetime ep)) (inLastDays host0 risingSample 42)) = 5
   \<and> None \<notin> set (map intensity (inLastDays host0 risingSample 42))
   \<and> risingIntensityRule_ext host0 risingSample [] =
       [\<lparr>title = ''Rising intensity trend'',
         message = ''Your 3'' @ nbhyphen
           @ ''week average intensity has risen by over 20%. Consider consulting a healthcare provider or reviewing possible triggers.''\<rparr>]
   \<and> risingIntensityRule_basic host0 risingSample [] =
       [\<lparr>title = ''Rising intensity'',
         message = ''Your average migraine intensity over the last three weeks (5.0) is noticeably higher than the preceding three weeks (2.0). It may be worth discussing this with a healthcare professional.''\<rparr>]
   \<and> spec_mean (filter (\<lambda>ep. newDate (datetime ep) < cutoffDate host0 21) (inLastDays host0 roundingSample 42)) = double (7 / 3)
   \<and> spec_mean (filter (\<lambda>ep. cutoffDate host0 21 \<le> newDate (datetime ep)) (inLastDays host0 roundingSample 42)) = double (14 / 5)
   \<and> risingIntensityRule_basic host0 roundingSample [] = []"
proof -
  have window: "inLastDays host0 risingSample 42 = risingSample"
    by code_simp
  have order: "sort_key (\<lambda>ep. newDate (datetime ep)) risingSample = risingSample"
    by code_simp
  have keys: "map (weekKey host0) risingSample = [19, 20, 21, 22, 23, 24]"
    by code_simp
  have weeks: "spec_weeks host0 risingSample = [19, 20, 21, 22, 23, 24]"
    unfolding spec_weeks_map order keys by code_simp
  have means: "[spec_weekMean host0 risingSample 19, spec_weekMean host0 risingSample 20,
      spec_weekMean host0 risingSample 21, spec_weekMean host0 risingSample 22,
      spec_weekMean host0 risingSample 23, spec_weekMean host0 risingSample 24] = [2, 2, 2, 5, 5, 5]"
    unfolding spec_weekMean_zip keys by code_simp
  have avg3: "average3 [2, 2, 2] = 2" "average3 [5, 5, 5] = 5" "dmul 2 (double 1.2) \<le> 5"
    by code_simp+
  have older: "spec_mean (filter (\<lambda>ep. newDate (datetime ep) < cutoffDate host0 21) risingSample) = 2"
    by code_simp
  have newer: "spec_mean (filter (\<lambda>ep. cutoffDate host0 21 \<le> newDate (datetime ep)) risingSample) = 5"
    by code_simp
  have fixed: "toFixed1 5 = ''5.0''" "toFixed1 2 = ''2.0''"
    by code_simp+
  have present: "\<forall>ep \<in> set risingSample. intensity ep \<noteq> None"
    by code_simp
  have present': "None \<notin> set (map intensity risingSample)"
    by code_simp
  have halves: "filter (\<lambda>ep. newDate (datetime ep) < cutoffDate host0 21) risingSample \<noteq> []"
    "filter (\<lambda>ep. cutoffDate host0 21 \<le> newDate (datetime ep)) risingSample \<noteq> []"
    by code_simp+
  have rounding: "spec_mean (filter (\<lambda>ep. newDate (datetime ep) < cutoffDate host0 21) (inLastDays host0 roundingSample 42)) = double (7 / 3)
     \<and> spec_mean (filter (\<lambda>ep. cutoffDate host0 21 \<le> newDate (datetime ep)) (inLastDays host0 roundingSample 42)) = double (14 / 5)
     \<and> risingIntensityRule_basic host0 roundingSample [] = []"
    by code_simp
  show ?thesis
    using risingIntensityRule_variants [of host0 risingSample "[]"] means present present' halves avg3 rounding
    by (simp add: window order keys weeks older newer fixed)
qed

text \<open>
  Claim C2, as the specification words it, fails on both versions.  On the first sample
  the extended version fires with a message that contains no average.  On two episodes of
  intensity 0, one in each half, the basic version fires although the previous average
  is 0.
\<close>

theorem risingIntensityRule_counterexample:
  "risingIntensityRule_ext host0 risingSample [] =
     [\<lparr>title = ''Rising intensity trend'',
       message = ''Your 3'' @ nbhyphen
         @ ''week average intensity has risen by over 20%. Consider consulting a healthcare provider or reviewing possible triggers.''\<rparr>]
   \<and> map intensity painlessSample = [Some 0, Some 0]
   \<and> risingIntensityRule_basic host0 painlessSample [] =
     [\<lparr>title = ''Rising intensity'',
       message = ''Your average migraine intensity over the last three weeks (0.0) is noticeably higher than the preceding three weeks (0.0). It may be worth discussing this with a healthcare professional.''\<rparr>]"
proof -
  have window: "inLastDays host0 risingSample 42 = risingSample"
    by code_simp
  have order: "sort_key (\<lambda>ep. newDate (datetime ep)) risingSample = risingSample"
    by code_simp
  have keys: "map (weekKey host0) risingSample = [19, 20, 21, 22, 23, 24]"
    by code_simp
  have weeks: "spec_weeks host0 risingSample = [19, 20, 21, 22, 23, 24]"
    unfolding spec_weeks_map order keys by code_simp
  have means: "[spec_weekMean host0 risingSample 19, spec_weekMean host0 risingSample 20,
      spec_weekMean host0 risingSample 21, spec_weekMean host0 risingSample 22,
      spec_weekMean host0 risingSample 23, spec_weekMean host0 risingSample 24] = [2, 2, 2, 5, 5, 5]"
    unfolding spec_weekMean_zip keys by code_simp
  have avg3: "average3 [2, 2, 2] = 2" "average3 [5, 5, 5] = 5" "dmul 2 (double 1.2) \<le> 5"
    by code_simp+
  have ext: "risingIntensityRule_ext host0 risingSample [] =
     [\<lparr>title = ''Rising intensity trend'',
       message = ''Your 3'' @ nbhyphen
         @ ''week average intensity has risen by over 20%. Consider consulting a healthcare provider or reviewing possible triggers.''\<rparr>]"
    using risingIntensityRule_ext_spec [of host0 risingSample "[]"] means avg3
    by (simp add: window order keys weeks)
  have basic: "map intensity painlessSample = [Some 0, Some 0]
     \<and> risingIntensityRule_basic host0 painlessSample [] =
     [\<lparr>title = ''Rising intensity'',
       message = ''Your average migraine intensity over the last three weeks (0.0) is noticeably higher than the preceding three weeks (0.0). It may be worth discussing this with a healthcare professional.''\<rparr>]"
    by code_simp
  show ?thesis using ext basic by simp
qed

section \<open>Frequent triggers\<close>




section \<open>Time-of-day cluster\<close>

text \<open>
  Claim C4, as the code has it.  For a non-empty 30-day window with \<open>totalCount\<close> episodes,
  let \<open>best\<close> be the largest number of minute values in a window of 240 minutes that ends at
  one of the sorted values, \<open>k\<close> the least right end of such a window and \<open>start\<close> the value
  at its left end.  The sweep computes exactly these.  Both versions fire if and only if
  \<open>best\<close> is at least the ceiling of \<open>0.4 * totalCount\<close>.

  The basic version names the range from \<open>start\<close> to \<open>start + 240\<close> reduced modulo 1440, whose
  hour is below 24, and the percentage: the double \<open>(best / totalCount) * 100\<close> rounded to
  the nearest integer, a half upwards.

  The extended version names whole hours only, from the hour of \<open>start\<close> to, when
  \<open>start + 240\<close> stays within the day, the hour of \<open>start + 240\<close>; it states no percentage.
\<close>

theorem timeOfDayRule_cluster:
  fixes h :: host and episodes :: "episode list"
  defines "recent \<equiv> inLastDays h episodes 30"
  defines "minutes \<equiv> sort (map (minuteOfDay h) recent)"
  defines "totalCount \<equiv> length recent"
  defines "best \<equiv> spec_maxWindowCount minutes"
  assumes nonempty: "recent \<noteq> []"
  shows "\<exists>k < totalCount.
     spec_windowCount minutes k = best \<and> (\<forall>k' < k. spec_windowCount minutes k' < best) \<and>
     (let start = minutes ! (Suc k - nat best);
          end = (start + 240) mod 1440;
          pct = Math_round (dmul (ddiv (of_int best) (of_nat totalCount)) 100)
      in 0 \<le> start \<and> start < 1440 \<and> end div 60 < 24
         \<and> timeOfDayRule_basic h episodes suggestions =
             (if best \<ge> \<lceil>of_nat totalCount * (0.4 :: rat)\<rceil> then
                suggestions @ [\<lparr>title = ''Time'' @ nbhyphen @ ''of'' @ nbhyphen @ ''day pattern'',
                  message = ''Around '' @ showInt pct @ ''% of your episodes happen between ''
                    @ formatTime start @ '' and '' @ formatTime end
                    @ ''. You might try adjusting your routine or preparing for triggers during this period.''\<rparr>]
              else suggestions)
         \<and> (best < \<lceil>of_nat totalCount * (0.4 :: rat)\<rceil> \<longrightarrow> timeOfDayRule_ext h episodes suggestions = suggestions)
         \<and> (best \<ge> \<lceil>of_nat totalCount * (0.4 :: rat)\<rceil> \<longrightarrow>
              (\<exists>endHour. (start + 240 < 1440 \<longrightarrow> endHour = end div 60) \<and>
                 timeOfDayRule_ext h episodes suggestions =
                   suggestions @ [\<lparr>title = ''Time'' @ nbhyphen @ ''of'' @ nbhyphen @ ''day cluster'',
                     message = ''A significant share of your episodes occur between ''
                       @ pad (start div 60) @ '':00'' @ endash @ pad endHour @ '':00''
                       @ ''. Consider a pre'' @ nbhyphen @ ''emptive routine or relaxation practice then.''\<rparr>])))"
proof -
  have srt: "sorted minutes" by (simp add: minutes_def)
  have len: "length minutes = totalCount" by (simp add: minutes_def totalCount_def)
  have "length minutes \<noteq> 0" using nonempty len by (simp add: totalCount_def)
  then have ne: "minutes \<noteq> []" by auto
  have fst_sweep: "fst (sweep minutes 0 0 0 0) = best"
    unfolding best_def by (rule sweep_spec(1) [OF srt ne])
  from sweep_spec(2) [OF srt ne] obtain k where k: "k < totalCount"
    "spec_windowCount minutes k = best" "\<forall>k' < k. spec_windowCount minutes k' < best"
    "snd (sweep minutes 0 0 0 0) = minutes ! (Suc k - nat best)"
    unfolding best_def len by blast
  let ?start = "minutes ! (Suc k - nat best)"
  have "1 \<le> best" using spec_windowCount_pos [OF srt, of k] k(1,2) len by simp
  then have "Suc k - nat best < length minutes" using k(1) len by simp
  then have "?start \<in> set minutes" by (rule nth_mem)
  then have "?start \<in> minuteOfDay h ` set recent" by (simp add: minutes_def)
  then have range: "0 \<le> ?start \<and> ?start < 1440" using minuteOfDay_range by auto
  have hour: "(?start + 240) mod 1440 div 60 < 24" by simp
  have wrap: "?start + 240 < 1440 \<Longrightarrow> (?start + 240) div 60 = (?start + 240) mod 1440 div 60"
    using range by simp
  have rl: "length recent \<noteq> 0" using nonempty by simp
  have basic: "timeOfDayRule_basic h episodes suggestions =
      (if best \<ge> \<lceil>of_nat totalCount * (0.4 :: rat)\<rceil> then
         suggestions @ [\<lparr>title = ''Time'' @ nbhyphen @ ''of'' @ nbhyphen @ ''day pattern'',
           message = ''Around '' @ showInt (Math_round (dmul (ddiv (of_int best) (of_nat totalCount)) 100))
             @ ''% of your episodes happen between '' @ formatTime ?start @ '' and ''
             @ formatTime ((?start + 240) mod 1440)
             @ ''. You might try adjusting your routine or preparing for triggers during this period.''\<rparr>]
       else suggestions)"
    using rl fst_sweep k(4) len
    unfolding timeOfDayRule_basic_def timeOfDayRule_basic_on_def recent_def [symmetric] Let_def minutes_def [symmetric] case_prod_beta
    by (simp add: Math_ceil_def)
  have ext: "timeOfDayRule_ext h episodes suggestions =
      (if best \<ge> \<lceil>of_nat totalCount * (0.4 :: rat)\<rceil> then
         suggestions @ [\<lparr>title = ''Time'' @ nbhyphen @ ''of'' @ nbhyphen @ ''day cluster'',
           message = ''A significant share of your episodes occur between ''
             @ pad (?start div 60) @ '':00'' @ endash @ pad ((?start + 240) div 60) @ '':00''
             @ ''. Consider a pre'' @ nbhyphen @ ''emptive routine or relaxation practice then.''\<rparr>]
       else suggestions)"
    using rl fst_sweep k(4) len
    unfolding timeOfDayRule_ext_def timeOfDayRule_ext_on_def recent_def [symmetric] Let_def minutes_def [symmetric] case_prod_beta
    by (simp add: Math_ceil_def)
  have ext_fire: "best \<ge> \<lceil>of_nat totalCount * (0.4 :: rat)\<rceil> \<Longrightarrow>
      \<exists>endHour. (?start + 240 < 1440 \<longrightarrow> endHour = (?start + 240) mod 1440 div 60) \<and>
         timeOfDayRule_ext h episodes suggestions =
           suggestions @ [\<lparr>title = ''Time'' @ nbhyphen @ ''of'' @ nbhyphen @ ''day cluster'',
             message = ''A significant share of your episodes occur between ''
               @ pad (?start div 60) @ '':00'' @ endash @ pad endHour @ '':00''
               @ ''. Consider a pre'' @ nbhyphen @ ''emptive routine or relaxation practice then.''\<rparr>]"
    using ext wrap by (intro exI [of _ "(?start + 240) div 60"]) simp
  show ?thesis
    unfolding Let_def
    apply (rule exI [of _ k])
    apply (intro conjI impI)
    using k(1) apply simp
    using k(2) apply simp
    using k(3) apply simp
    using range apply simp
    using range apply simp
    using hour apply simp
    using basic apply simp
    using ext apply simp
    using ext_fire apply simp
    done
qed

text \<open>
  The six sample episodes: the best window holds the four at 19:00, four of six is 67 per cent,
  and the threshold is 3.  The two late episodes: the range wraps to 01:30.  For 23 of 40
  the percentage is 57: the double product lies just below 57.5.
\<close>

theorem timeOfDayRule_cluster_witness:
  "inLastDays host0 eveningSample 30 \<noteq> []
   \<and> spec_maxWindowCount (sort (map (minuteOfDay host0) (inLastDays host0 eveningSample 30))) = 4
   \<and> timeOfDayRule_basic host0 eveningSample [] =
       [\<lparr>title = ''Time'' @ nbhyphen @ ''of'' @ nbhyphen @ ''day pattern'',
         message = ''Around 67% of your episodes happen between 19:00 and 23:00. You might try adjusting your routine or preparing for triggers during this period.''\<rparr>]
   \<and> timeOfDayRule_basic host0 lateSample [] =
       [\<lparr>title = ''Time'' @ nbhyphen @ ''of'' @ nbhyphen @ ''day pattern'',
         message = ''Around 100% of your episodes happen between 21:30 and 01:30. You might try adjusting your routine or preparing for triggers during this period.''\<rparr>]
   \<and> Math_round (dmul (ddiv (of_int 23) (of_nat 40)) 100) = 57"
proof -
  have pct: "Math_round (dmul (ddiv (of_int 23) (of_nat 40)) 100) = 57"
    by code_simp
  have window: "inLastDays host0 eveningSample 30 \<noteq> []"
    by code_simp
  have best: "fst (sweep (sort (map (minuteOfDay host0) (inLastDays host0 eveningSample 30))) 0 0 0 0) = 4"
    by code_simp
  have evening: "timeOfDayRule_basic host0 eveningSample [] =
       [\<lparr>title = ''Time'' @ nbhyphen @ ''of'' @ nbhyphen @ ''day pattern'',
         message = ''Around 67% of your episodes happen between 19:00 and 23:00. You might try adjusting your routine or preparing for triggers during this period.''\<rparr>]"
    by code_simp
  have late: "timeOfDayRule_basic host0 lateSample [] =
       [\<lparr>title = ''Time'' @ nbhyphen @ ''of'' @ nbhyphen @ ''day pattern'',
         message = ''Around 100% of your episodes happen between 21:30 and 01:30. You might try adjusting your routine or preparing for triggers during this period.''\<rparr>]"
    by code_simp
  have "length (sort (map (minuteOfDay host0) (inLastDays host0 eveningSample 30))) \<noteq> 0"
    using window by simp
  then have "sort (map (minuteOfDay host0) (inLastDays host0 eveningSample 30)) \<noteq> []"
    by (simp only: length_0_conv not_False_eq_True)
  from sweep_spec(1) [OF sorted_sort this] best
  have "spec_maxWindowCount (sort (map (minuteOfDay host0) (inLastDays host0 eveningSample 30))) = 4"
    by simp
  with timeOfDayRule_cluster [OF window, of "[]"] window evening late pct show ?thesis
    by simp
qed

text \<open>
  Claim C4 fails on the extended version.  For two episodes at 21:30 and 22:00 its message
  names a range that ends at hour 25, and no percentage.
\<close>

theorem timeOfDayRule_ext_counterexample:
  "timeOfDayRule_ext host0 lateSample [] =
     [\<lparr>title = ''Time'' @ nbhyphen @ ''of'' @ nbhyphen @ ''day cluster'',
       message = ''A significant share of your episodes occur between 21:00'' @ endash
         @ ''25:00. Consider a pre'' @ nbhyphen @ ''emptive routine or relaxation practice then.''\<rparr>]"
  by code_simp

section \<open>Medication overuse\<close>

text \<open>
  Claim C5 against the code.  A host two hours east of Greenwich holds ten episodes with
  a medication, all in the 30-day window and stored as the form stores them.  Two of them
  fall on the same local day, at 01:00 and at 12:00, so medication was taken on nine local
  calendar days.  The basic version takes the day from \<^verbatim>\<open>toISOString\<close>, the extended
  version from the first ten characters of the stored text: both count the dates in UTC,
  which are ten, and both add the finding with the count 10.
\<close>

theorem medicationOveruseRule_counts_utc_dates:
  "length (localDates hostEast (filter hasMedications (inLastDays hostEast tenDaysSample 30))) = 9
   \<and> length (filter hasMedications (inLastDays hostEast tenDaysSample 30)) = 10
   \<and> Max (set (instants tenDaysSample)) \<le> now hostEast
   \<and> medicationOveruseRule_basic hostEast tenDaysSample [] =
     [\<lparr>title = ''Medication use'',
       message = ''You've taken migraine medication on 10 days in the last month. Overuse can sometimes worsen migraines ''
         @ endash @ '' consider discussing your medication plan with a doctor.''\<rparr>]
   \<and> medicationOveruseRule_ext hostEast tenDaysSample [] =
     [\<lparr>title = ''Medication usage'',
       message = ''You've used medication on 10 days in the last month. Over'' @ nbhyphen
         @ ''use can sometimes worsen migraines; speak with your doctor.''\<rparr>]"
  by code_simp

section \<open>Consistent tracking streak\<close>

text \<open>
  Claim C10.  The rule reads the episodes only through the set of their calendar-day
  strings, and it does not read the host: two histories with the same set of days get the
  same result, whatever \<open>now\<close> is.  The streak is the length of the run of consecutive
  logged days that ends at the latest logged day.  When that run has at least three days,
  the rule adds the finding ``Consistent tracking'' with the length of the run, and the
  finding is in the result of \<open>analysePatterns\<close> for every host, that is for every \<open>now\<close>.
\<close>

theorem streakRule_days_only:
  fixes episodes episodes' :: "episode list"
  defines "days \<equiv> (\<lambda>ep. slice_0_10 (datetime ep)) ` set episodes"
  defines "days' \<equiv> (\<lambda>ep. slice_0_10 (datetime ep)) ` set episodes'"
  defines "finding \<equiv> \<lparr>title = ''Consistent tracking'',
             message = ''Great job! You've logged episodes for '' @ showNat (computeStreak episodes)
               @ '' consecutive days. Keeping track consistently helps identify patterns.''\<rparr>"
  shows "(days' = days \<longrightarrow> streakRule episodes' suggestions = streakRule episodes suggestions)
       \<and> (episodes \<noteq> [] \<longrightarrow> (\<forall>n. n \<le> computeStreak episodes \<longleftrightarrow> (\<forall>j < n. Max days - int j \<in> days)))
       \<and> streakRule episodes suggestions =
           (if 3 \<le> computeStreak episodes then suggestions @ [finding] else suggestions)
       \<and> (episodes \<noteq> [] \<and> (\<forall>j < 3. Max days - int j \<in> days) \<longrightarrow>
            (\<forall>h. finding \<in> set (analysePatterns_ext h episodes)))"
proof (intro conjI impI allI)
  assume "days' = days"
  then have "computeStreak episodes' = computeStreak episodes"
    unfolding days_def days'_def by (intro computeStreak_days_only) simp
  then show "streakRule episodes' suggestions = streakRule episodes suggestions"
    by (simp add: streakRule_eq)
next
  fix n
  assume "episodes \<noteq> []"
  then show "n \<le> computeStreak episodes \<longleftrightarrow> (\<forall>j < n. Max days - int j \<in> days)"
    unfolding days_def by (rule computeStreak_iff)
next
  show "streakRule episodes suggestions =
      (if 3 \<le> computeStreak episodes then suggestions @ [finding] else suggestions)"
    unfolding finding_def by (rule streakRule_eq)
next
  fix h
  assume a: "episodes \<noteq> [] \<and> (\<forall>j < 3. Max days - int j \<in> days)"
  then have three: "3 \<le> computeStreak episodes"
    using computeStreak_iff [of episodes 3] unfolding days_def by simp
  have "finding \<in> set (streakRule episodes s)" for s
    using three unfolding finding_def by (simp add: streakRule_eq)
  then have "finding \<in> set (weeklyChangeRule h episodes (streakRule episodes s))" for s
    using weeklyChangeRule_keeps by blast
  then show "finding \<in> set (analysePatterns_ext h episodes)"
    using a by (simp add: analysePatterns_ext_def Let_def)
qed

text \<open>
  Three episodes on the days 19500, 19501 and 19502, and a host 10500 days later, in
  2052: the streak is 3 and the finding is the whole result of the extended version.  The
  same days logged in another order, one of them twice, give the same result.
\<close>

theorem streakRule_days_only_witness:
  "episodesOn [19500, 19501, 19502] \<noteq> []
   \<and> computeStreak (episodesOn [19500, 19501, 19502]) = 3
   \<and> set (map (\<lambda>ep. slice_0_10 (datetime ep)) (episodesOn [19502, 19500, 19501, 19500]))
       = set (map (\<lambda>ep. slice_0_10 (datetime ep)) (episodesOn [19500, 19501, 19502]))
   \<and> streakRule (episodesOn [19502, 19500, 19501, 19500]) [] = streakRule (episodesOn [19500, 19501, 19502]) []
   \<and> Max (set (map (\<lambda>ep. slice_0_10 (datetime ep)) (episodesOn [19500, 19501, 19502]))) = 19502
   \<and> analysePatterns_ext (hostAt (noon 30000) (fixedZone 0)) (episodesOn [19500, 19501, 19502]) =
       [\<lparr>title = ''Consistent tracking'',
         message = ''Great job! You've logged episodes for 3 consecutive days. Keeping track consistently helps identify patterns.''\<rparr>]"
proof -
  have ne: "episodesOn [19500, 19501, 19502] \<noteq> []"
    by code_simp
  have days: "(\<lambda>ep. slice_0_10 (datetime ep)) ` set (episodesOn [19500, 19501, 19502]) = {19500, 19501, 19502}"
    "(\<lambda>ep. slice_0_10 (datetime ep)) ` set (episodesOn [19502, 19500, 19501, 19500]) = {19500, 19501, 19502}"
    by (auto simp: episodesOn_def episodeAt_def slice_0_10_def noon_def msPerDay_def)
  have run: "\<forall>j < 3. 19502 - int j \<in> {19500, 19501, 19502 :: int}"
  proof (intro allI impI)
    fix j :: nat
    assume "j < 3"
    then have "j = 0 \<or> j = 1 \<or> j = 2" by arith
    then show "19502 - int j \<in> {19500, 19501, 19502 :: int}" by auto
  qed
  have streak: "computeStreak (episodesOn [19500, 19501, 19502]) = 3"
    by code_simp
  have all: "analysePatterns_ext (hostAt (noon 30000) (fixedZone 0)) (episodesOn [19500, 19501, 19502]) =
       [\<lparr>title = ''Consistent tracking'',
         message = ''Great job! You've logged episodes for 3 consecutive days. Keeping track consistently helps identify patterns.''\<rparr>]"
    by code_simp
  show ?thesis
    using streakRule_days_only [of "episodesOn [19502, 19500, 19501, 19500]" "episodesOn [19500, 19501, 19502]" "[]"]
      ne run streak all
    by (simp add: days)
qed

section \<open>The input array\<close>

text \<open>
  Claim C7.  Run on the array at the address \<open>episodes\<close> of a store, both versions of
  \<open>analysePatterns\<close> leave that array as it was, with the same episodes in the same order:
  the store after the run is the store before it with new arrays behind it.  The streak
  rule sorts the copy made by \<^verbatim>\<open>slice\<close>, the time-of-day rule sorts the array made by
  \<^verbatim>\<open>map\<close>.  The findings are those of the rules on the value of the input array.
\<close>

theorem analysePatterns_leaves_input:
  assumes "episodes < length st"
  shows "snd (analysePatterns_basic_st h episodes st) ! episodes = st ! episodes
       \<and> take (length st) (snd (analysePatterns_basic_st h episodes st)) = st
       \<and> fst (analysePatterns_basic_st h episodes st) = analysePatterns_basic h (episodesAt st episodes)
       \<and> snd (analysePatterns_ext_st h episodes st) ! episodes = st ! episodes
       \<and> take (length st) (snd (analysePatterns_ext_st h episodes st)) = st
       \<and> fst (analysePatterns_ext_st h episodes st) = analysePatterns_ext h (episodesAt st episodes)"
proof -
  have b: "fst (analysePatterns_basic_st h episodes st) = analysePatterns_basic h (episodesAt st episodes)"
    "keeps st (snd (analysePatterns_basic_st h episodes st))"
    using analysePatterns_basic_st_sound [OF assms, of h] by simp_all
  have e: "fst (analysePatterns_ext_st h episodes st) = analysePatterns_ext h (episodesAt st episodes)"
    "keeps st (snd (analysePatterns_ext_st h episodes st))"
    using analysePatterns_ext_st_sound [OF assms, of h] by simp_all
  have tk: "keeps st st' \<Longrightarrow> take (length st) st' = st" for st'
    by (auto simp: keeps_def prefix_def)
  show ?thesis
    using b e keeps_nth [OF b(2) assms] keeps_nth [OF e(2) assms] tk [OF b(2)] tk [OF e(2)]
    by simp
qed

text \<open>
  The sample store holds two episodes, the earlier first.  After a run of the extended
  version the array is as it was, though the streak rule has sorted its copy the other way
  round: a sort of the input array itself would have changed the store.
\<close>

theorem analysePatterns_leaves_input_witness:
  "(0 :: nat) < length store0
   \<and> snd (analysePatterns_ext_st host0 0 store0) ! 0 = Episodes unsortedSample
   \<and> snd (analysePatterns_basic_st host0 0 store0) ! 0 = Episodes unsortedSample
   \<and> snd (streakRule_st 0 [] store0) = store0 @ [Episodes (rev unsortedSample)]
   \<and> Array_sort_episodes (\<lambda>ep. - newDate (datetime ep)) 0 store0 = [Episodes (rev unsortedSample)]
   \<and> rev unsortedSample \<noteq> unsortedSample"
proof -
  have len: "(0 :: nat) < length store0"
    by (simp add: store0_def)
  have rest: "snd (streakRule_st 0 [] store0) = store0 @ [Episodes (rev unsortedSample)]
     \<and> Array_sort_episodes (\<lambda>ep. - newDate (datetime ep)) 0 store0 = [Episodes (rev unsortedSample)]
     \<and> rev unsortedSample \<noteq> unsortedSample"
    by code_simp
  show ?thesis
    using analysePatterns_leaves_input [OF len, of host0] rest
    by (simp add: store0_def)
qed

section \<open>Absent fields\<close>

text \<open>
  Claim C6 against the code.  The basic version of the rising-intensity rule adds
  \<^verbatim>\<open>ep.intensity\<close> to the sum as it is.  With an episode that has no intensity the sum of its
  half is \<^verbatim>\<open>NaN\<close>, the comparison is false, and the rule adds nothing, where with the
  intensity 0 in its place the averages are 1 and 5 and the rule adds its finding.  The
  other findings of \<open>analysePatterns\<close> are the same for both lists.
\<close>

theorem risingIntensityRule_basic_absent_intensity:
  "map intensity absentSample = [Some 1, None, Some 10]
   \<and> map intensity zeroSample = [Some 1, Some 0, Some 10]
   \<and> average_basic (filter (\<lambda>ep. cutoffDate host0 21 \<le> newDate (datetime ep)) absentSample) = None
   \<and> risingIntensityRule_basic host0 absentSample [] = []
   \<and> risingIntensityRule_basic host0 zeroSample [] =
       [\<lparr>title = ''Rising intensity'',
         message = ''Your average migraine intensity over the last three weeks (5.0) is noticeably higher than the preceding three weeks (1.0). It may be worth discussing this with a healthcare professional.''\<rparr>]
   \<and> map title (analysePatterns_basic host0 absentSample) = [''Time'' @ nbhyphen @ ''of'' @ nbhyphen @ ''day pattern'']
   \<and> map title (analysePatterns_basic host0 zeroSample) =
       [''Time'' @ nbhyphen @ ''of'' @ nbhyphen @ ''day pattern'', ''Rising intensity'']"
  by code_simp


end
